theory Spec2Isabelle
  imports Complex_Main
begin

section \<open>Python values, exceptions and the question record\<close>

text \<open>
  A shallow embedding of \<^verbatim>\<open>train_fid_temporal.py\<close>: the example transformer
  (\<^verbatim>\<open>ForecastingDataset.get_category\<close> and \<^verbatim>\<open>__getitem__\<close>), the per-day encoder adapter
  (\<^verbatim>\<open>get_fid_outputs\<close>), the batch collator (\<^verbatim>\<open>forecaster_collate_fn\<close>) and the loss of
  \<^verbatim>\<open>train\<close>.

  Conventions. A Python exception is a value \<open>Inl e\<close> of a sum type. Python floats are
  modelled as real numbers with exact arithmetic; infinities and NaN are outside the model,
  and rounding enters where a property depends on it: the section on rounded arithmetic
  repeats the computation of a multiple-choice row with a rounding after every operation. Python compares an \<^verbatim>\<open>int\<close> and a \<^verbatim>\<open>float\<close> by value, so one numeric type serves
  both. The builtin \<^verbatim>\<open>float(s)\<close> on a string is a parameter \<open>sf\<close> of the model
  (\<open>None\<close> where the builtin raises \<^verbatim>\<open>ValueError\<close>).
\<close>

datatype py_error =
  IndexError | KeyError | ValueError | TypeError | ZeroDivisionError
  | UnboundLocalError | AssertionError | RuntimeError

text \<open>The JSON values a record holds in its \<^verbatim>\<open>target\<close> and \<^verbatim>\<open>answers\<close> slots.\<close>

datatype pyval = PStr string | PNum real | PList "pyval list"

record doc =
  doc_title :: string
  doc_body :: string
  doc_score :: string

text \<open>
  One entry of \<^verbatim>\<open>example['targets']\<close>. The slot \<^verbatim>\<open>ctxs\<close> may be absent-valued (\<^verbatim>\<open>None\<close>) or
  an empty list; both are falsy.
\<close>

record day =
  date :: string
  target :: pyval
  ctxs :: "doc list option"

text \<open>\<^verbatim>\<open>example['choices']\<close> is a dict (regression bounds) or a list of option strings.\<close>

datatype choice_set = ChoiceDict "(string \<times> pyval) list" | ChoiceList "string list"

record example =
  question :: string
  answers :: "pyval list"
  choices :: choice_set
  targets :: "day list"

text \<open>The category ids 0, 1 and 2 of the source.\<close>

datatype category = BinaryTF | MultiChoice | Regression

fun cat_id :: "category \<Rightarrow> nat" where
  "cat_id BinaryTF = 0"
| "cat_id MultiChoice = 1"
| "cat_id Regression = 2"

type_synonym float_parser = "string \<Rightarrow> real option"

section \<open>Category classification\<close>

definition tf_choices :: "string list" where
  "tf_choices = [''yes'', ''no'', ''Yes'', ''No'']"

definition is_list :: "pyval \<Rightarrow> bool" where
  "is_list v = (case v of PList _ \<Rightarrow> True | _ \<Rightarrow> False)"

text \<open>
  The last two disjuncts of the \<^verbatim>\<open>elif\<close> of \<^verbatim>\<open>get_category\<close>:
  \<^verbatim>\<open>len(example['choices']) > 2 or isinstance(example['targets'][0]['target'], list)\<close>.
  The index \<^verbatim>\<open>[0]\<close> raises on an empty list of days.
\<close>

definition many_or_list_target :: "string list \<Rightarrow> example \<Rightarrow> py_error + category" where
  "many_or_list_target cs ex =
     (if length cs > 2 then Inr MultiChoice
      else (case targets ex of
              [] \<Rightarrow> Inl IndexError
            | d # _ \<Rightarrow> if is_list (target d) then Inr MultiChoice else Inr BinaryTF))"

text \<open>
  \<^verbatim>\<open>get_category\<close>. Python evaluates \<^verbatim>\<open>(A and B) or C or D\<close> from the left and stops early:
  \<^verbatim>\<open>choices[1]\<close> is read only when \<^verbatim>\<open>choices[0]\<close> is not a yes/no word.
\<close>

definition get_category :: "example \<Rightarrow> py_error + category" where
  "get_category ex =
     (case choices ex of
        ChoiceDict _ \<Rightarrow> Inr Regression
      | ChoiceList cs \<Rightarrow>
          (case cs of
             [] \<Rightarrow> Inl IndexError
           | c0 # rest \<Rightarrow>
               if c0 \<notin> set tf_choices then
                 (case rest of
                    [] \<Rightarrow> Inl IndexError
                  | c1 # _ \<Rightarrow>
                      if c1 \<notin> set tf_choices then Inr MultiChoice
                      else many_or_list_target cs ex)
               else many_or_list_target cs ex))"

text \<open>
  The classification as the specification words it: a mapping is Regression; a choice
  list with more than two options, with non-yes/no values (some option is not a yes/no
  word), or with a list-valued first-day target is MultiChoice; anything else is BinaryTF.
\<close>

definition non_yes_no_values :: "string list \<Rightarrow> bool" where
  "non_yes_no_values cs = list_ex (\<lambda>c. c \<notin> set tf_choices) cs"

definition first_target_is_list :: "example \<Rightarrow> bool" where
  "first_target_is_list ex = (case targets ex of [] \<Rightarrow> False | d # _ \<Rightarrow> is_list (target d))"

definition spec_category :: "example \<Rightarrow> category" where
  "spec_category ex =
     (case choices ex of
        ChoiceDict _ \<Rightarrow> Regression
      | ChoiceList cs \<Rightarrow>
          if length cs > 2 \<or> non_yes_no_values cs \<or> first_target_is_list ex
          then MultiChoice else BinaryTF)"

text \<open>
  The classification as amended: the test on the values is that neither of the first two
  options is a yes/no word.
\<close>

definition first_two_non_yes_no :: "string list \<Rightarrow> bool" where
  "first_two_non_yes_no cs = list_all (\<lambda>c. c \<notin> set tf_choices) (take 2 cs)"

definition amended_category :: "example \<Rightarrow> category" where
  "amended_category ex =
     (case choices ex of
        ChoiceDict _ \<Rightarrow> Regression
      | ChoiceList cs \<Rightarrow>
          if length cs > 2 \<or> first_two_non_yes_no cs \<or> first_target_is_list ex
          then MultiChoice else BinaryTF)"

text \<open>
  A record the classifier accepts without an index error: a mapping, or a list of at least
  two options together with at least one day.
\<close>

definition classifiable :: "example \<Rightarrow> bool" where
  "classifiable ex =
     (case choices ex of
        ChoiceDict _ \<Rightarrow> True
      | ChoiceList cs \<Rightarrow> 2 \<le> length cs \<and> targets ex \<noteq> [])"

text \<open>
  The in-place update \<^verbatim>\<open>day['ctxs'] = []\<close> that \<^verbatim>\<open>__getitem__\<close> performs on every day without
  documents; it is the only mutation of a record in the file.
\<close>

definition no_ctxs :: "day \<Rightarrow> bool" where
  "no_ctxs d = (case ctxs d of None \<Rightarrow> True | Some ds \<Rightarrow> ds = [])"

definition clear_ctxs :: "day \<Rightarrow> day" where
  "clear_ctxs d = (if no_ctxs d then d\<lparr>ctxs := Some []\<rparr> else d)"

definition after_getitem :: "example \<Rightarrow> example" where
  "after_getitem ex = ex\<lparr>targets := map clear_ctxs (targets ex)\<rparr>"

section \<open>The example transformer\<close>

definition max_choice_len :: nat where
  "max_choice_len = 12"

definition STR2BOOL :: "string \<rightharpoonup> real" where
  "STR2BOOL = [''yes'' \<mapsto> 1, ''Yes'' \<mapsto> 1, ''no'' \<mapsto> 0, ''No'' \<mapsto> 0]"

text \<open>\<^verbatim>\<open>float(v)\<close>: a number is itself, a string is parsed, a list is a type error.\<close>

definition py_float :: "float_parser \<Rightarrow> pyval \<Rightarrow> py_error + real" where
  "py_float sf v =
     (case v of
        PNum r \<Rightarrow> Inr r
      | PStr s \<Rightarrow> (case sf s of None \<Rightarrow> Inl ValueError | Some r \<Rightarrow> Inr r)
      | PList _ \<Rightarrow> Inl TypeError)"

text \<open>\<^verbatim>\<open>len(example['choices'])\<close>, defined for a dict and for a list.\<close>

definition num_choices :: "choice_set \<Rightarrow> nat" where
  "num_choices c = (case c of ChoiceDict kv \<Rightarrow> length kv | ChoiceList cs \<Rightarrow> length cs)"

text \<open>
  The true label. \<^verbatim>\<open>STR2BOOL[a]\<close> raises \<^verbatim>\<open>KeyError\<close> on a key it does not hold and
  \<^verbatim>\<open>TypeError\<close> on an unhashable list; \<^verbatim>\<open>ord(a)\<close> accepts a string of length one only.
\<close>

definition true_target :: "float_parser \<Rightarrow> category \<Rightarrow> example \<Rightarrow> py_error + real" where
  "true_target sf cat ex =
     (case answers ex of
        [] \<Rightarrow> Inl IndexError
      | a # _ \<Rightarrow>
          (case cat of
             BinaryTF \<Rightarrow>
               (case a of
                  PStr s \<Rightarrow> (case STR2BOOL s of None \<Rightarrow> Inl KeyError | Some b \<Rightarrow> Inr b)
                | PNum _ \<Rightarrow> Inl KeyError
                | PList _ \<Rightarrow> Inl TypeError)
           | Regression \<Rightarrow> py_float sf a
           | MultiChoice \<Rightarrow>
               (case a of
                  PStr [c] \<Rightarrow> Inr (real_of_int (int (of_char c) - int (of_char CHR ''A'')))
                | _ \<Rightarrow> Inl TypeError)))"

text \<open>An error-propagating \<^verbatim>\<open>[f(x) for x in xs]\<close>: the first failing element raises.\<close>

fun map_err :: "('a \<Rightarrow> py_error + 'b) \<Rightarrow> 'a list \<Rightarrow> py_error + 'b list" where
  "map_err f [] = Inr []"
| "map_err f (x # xs) =
     (case f x of
        Inl e \<Rightarrow> Inl e
      | Inr y \<Rightarrow> (case map_err f xs of Inl e \<Rightarrow> Inl e | Inr ys \<Rightarrow> Inr (y # ys)))"

text \<open>\<^verbatim>\<open>v[:n]\<close>: a list prefix, the leading characters of a string, a type error on a number.\<close>

definition slice_prefix :: "pyval \<Rightarrow> nat \<Rightarrow> py_error + pyval list" where
  "slice_prefix v n =
     (case v of
        PList xs \<Rightarrow> Inr (take n xs)
      | PStr s \<Rightarrow> Inr (map (\<lambda>c. PStr [c]) (take n s))
      | PNum _ \<Rightarrow> Inl TypeError)"

text \<open>
  The halving of \<^verbatim>\<open>adjust_targets\<close> on a multiple-choice row:
  \<^verbatim>\<open>[(t[i]+1) / 2 if i == true_target else t[i] / 2 for i in range(len(t))]\<close>.
\<close>

definition adjust_row :: "real \<Rightarrow> real list \<Rightarrow> real list" where
  "adjust_row tt t = map (\<lambda>i. if real i = tt then (t ! i + 1) / 2 else t ! i / 2) [0..<length t]"

text \<open>
  \<^verbatim>\<open>[t / total for t in targets_mc]\<close>: Python raises on a float division by zero, which
  happens at the first element when the sum is zero.
\<close>

definition normalize_row :: "real list \<Rightarrow> py_error + real list" where
  "normalize_row targets_mc =
     (let total = sum_list targets_mc in
      if targets_mc \<noteq> [] \<and> total = 0 then Inl ZeroDivisionError
      else Inr (map (\<lambda>x. x / total) targets_mc))"

text \<open>
  The target row of one day that has documents (lines 637 to 648). \<open>len\<close> is
  \<^verbatim>\<open>min(len(example['choices']), max_choice_len)\<close>, \<open>tt\<close> the true label. The branch
  \<^verbatim>\<open>elif cat == 1\<close> is the only one left after \<^verbatim>\<open>cat == 0 or cat == 2\<close>.
\<close>

definition day_target ::
  "float_parser \<Rightarrow> bool \<Rightarrow> category \<Rightarrow> nat \<Rightarrow> real \<Rightarrow> pyval \<Rightarrow> py_error + real list" where
  "day_target sf adjust cat len tt v =
     (if cat = BinaryTF \<or> cat = Regression then
        (case py_float sf v of
           Inl e \<Rightarrow> Inl e
         | Inr t \<Rightarrow> Inr [if adjust then (t + tt) / 2 else t])
      else
        (case slice_prefix v len of
           Inl e \<Rightarrow> Inl e
         | Inr preds \<Rightarrow>
             (case map_err (py_float sf) preds of
                Inl e \<Rightarrow> Inl e
              | Inr targets_mc \<Rightarrow>
                  (case normalize_row targets_mc of
                     Inl e \<Rightarrow> Inl e
                   | Inr t \<Rightarrow> Inr (if adjust then adjust_row tt t else t)))))"

text \<open>
  A day sub-example: the deep copy of the day with \<^verbatim>\<open>id\<close>, \<^verbatim>\<open>question\<close>, \<^verbatim>\<open>answers\<close> and
  \<^verbatim>\<open>choices\<close> added and \<^verbatim>\<open>target\<close> deleted.
\<close>

record fid_example =
  fe_id :: nat
  fe_date :: string
  fe_ctxs :: "doc list option"
  fe_question :: string
  fe_answers :: "pyval list"
  fe_choices :: choice_set

definition day_copy :: "day \<Rightarrow> nat \<Rightarrow> example \<Rightarrow> fid_example" where
  "day_copy d i ex =
     \<lparr>fe_id = i, fe_date = date d, fe_ctxs = ctxs d, fe_question = question ex,
      fe_answers = answers ex, fe_choices = choices ex\<rparr>"

text \<open>
  The state of the loop over \<^verbatim>\<open>enumerate(example['targets'])\<close>: the two lists, the flag, and
  the days visited so far as the loop leaves them (\<^verbatim>\<open>day['ctxs'] = []\<close> is written into the
  record). The last visited day is what the name \<^verbatim>\<open>day\<close> is bound to after the loop.
\<close>

record loop_state =
  fid_examples :: "fid_example list"
  target_rows :: "real list list"
  has_ctxs :: bool
  visited :: "day list"

definition init_state :: loop_state where
  "init_state = \<lparr>fid_examples = [], target_rows = [], has_ctxs = False, visited = []\<rparr>"

fun days_loop ::
  "float_parser \<Rightarrow> bool \<Rightarrow> category \<Rightarrow> nat \<Rightarrow> real \<Rightarrow> example \<Rightarrow> nat \<Rightarrow> day list
     \<Rightarrow> loop_state \<Rightarrow> py_error + loop_state" where
  "days_loop sf adjust cat len tt ex i [] st = Inr st"
| "days_loop sf adjust cat len tt ex i (d # ds) st =
     (if no_ctxs d then
        days_loop sf adjust cat len tt ex (Suc i) ds
          (st\<lparr>visited := visited st @ [d\<lparr>ctxs := Some []\<rparr>]\<rparr>)
      else
        (case day_target sf adjust cat len tt (target d) of
           Inl e \<Rightarrow> Inl e
         | Inr t \<Rightarrow>
             days_loop sf adjust cat len tt ex (Suc i) ds
               (st\<lparr>has_ctxs := True,
                   target_rows := target_rows st @ [t],
                   fid_examples := fid_examples st @ [day_copy d i ex],
                   visited := visited st @ [d]\<rparr>)))"

text \<open>
  The fallback after the loop (lines 658 to 669). With no day at all the name \<^verbatim>\<open>day\<close> was
  never bound and \<^verbatim>\<open>copy.deepcopy(day)\<close> raises.
\<close>

definition indicator_row :: "nat \<Rightarrow> real \<Rightarrow> real list" where
  "indicator_row len tt = map (\<lambda>i. if real i = tt then 1 else 0) [0..<len]"

definition fallback :: "category \<Rightarrow> nat \<Rightarrow> real \<Rightarrow> example \<Rightarrow> loop_state \<Rightarrow> py_error + loop_state" where
  "fallback cat len tt ex st =
     (if has_ctxs st then Inr st
      else if visited st = [] then Inl UnboundLocalError
      else Inr (st\<lparr>target_rows := target_rows st @
                      [if cat = BinaryTF \<or> cat = Regression then [tt] else indicator_row len tt],
                    fid_examples := fid_examples st @ [day_copy (last (visited st)) 0 ex]\<rparr>))"

text \<open>The Python slice \<^verbatim>\<open>xs[-m:]\<close> for any integer \<open>m\<close>; \<^verbatim>\<open>xs[-0:]\<close> is the whole list.\<close>

definition last_slice :: "int \<Rightarrow> 'a list \<Rightarrow> 'a list" where
  "last_slice m xs =
     (let n = int (length xs); start = - m
      in drop (nat (if start < 0 then max 0 (n + start) else min start n)) xs)"

text \<open>
  A two-dimensional tensor: its rows, and the size of its second dimension (which a tensor
  with no rows still has).
\<close>

record tensor2 =
  tcols :: nat
  trows :: "real list list"

definition max_len :: "'a list list \<Rightarrow> nat" where
  "max_len xss = foldr (\<lambda>xs m. max (length xs) m) xss 0"

text \<open>
  \<^verbatim>\<open>pad_sequence(rows, batch_first=True, padding_value=v)\<close> on one-dimensional tensors; the
  library refuses an empty list of sequences.
\<close>

definition pad_sequence1 :: "real \<Rightarrow> real list list \<Rightarrow> py_error + tensor2" where
  "pad_sequence1 v rs =
     (if rs = [] then Inl RuntimeError
      else Inr \<lparr>tcols = max_len rs,
                trows = map (\<lambda>r. r @ replicate (max_len rs - length r) v) rs\<rparr>)"

text \<open>
  \<^verbatim>\<open>targets_pad = torch.full((n, max_choice_len), -1.)\<close> followed by
  \<^verbatim>\<open>targets_pad[:n, :w] = targets\<close>; the assignment fails when \<^verbatim>\<open>targets\<close> is wider than
  the destination.
\<close>

definition fill_targets_pad :: "tensor2 \<Rightarrow> py_error + tensor2" where
  "fill_targets_pad t =
     (if tcols t > max_choice_len then Inl RuntimeError
      else Inr \<lparr>tcols = max_choice_len,
                trows = map (\<lambda>r. r @ replicate (max_choice_len - tcols t) (- 1)) (trows t)\<rparr>)"

record item =
  item_fid :: "fid_example list"
  item_targets :: tensor2
  item_true :: real
  item_cat :: category

text \<open>
  The loop and the fallback together: the two lists as they stand at the assertion
  \<^verbatim>\<open>assert len(targets) == len(fid_examples)\<close>.
\<close>

definition collect_days ::
  "float_parser \<Rightarrow> bool \<Rightarrow> category \<Rightarrow> real \<Rightarrow> example \<Rightarrow> py_error + loop_state" where
  "collect_days sf adjust cat tt ex =
     (let len = min (num_choices (choices ex)) max_choice_len in
      case days_loop sf adjust cat len tt ex 0 (targets ex) init_state of
        Inl e \<Rightarrow> Inl e
      | Inr st \<Rightarrow> fallback cat len tt ex st)"

text \<open>The rest of \<^verbatim>\<open>__getitem__\<close> from the assertion on (lines 671 to 699).\<close>

definition finish_item ::
  "int \<Rightarrow> category \<Rightarrow> real \<Rightarrow> loop_state \<Rightarrow> py_error + item" where
  "finish_item max_seq_len cat tt st =
     (if length (target_rows st) \<noteq> length (fid_examples st) then Inl AssertionError
      else
        (case pad_sequence1 (- 1) (last_slice max_seq_len (target_rows st)) of
           Inl e \<Rightarrow> Inl e
         | Inr padded \<Rightarrow>
             (case fill_targets_pad padded of
                Inl e \<Rightarrow> Inl e
              | Inr targets_pad \<Rightarrow>
                  Inr \<lparr>item_fid = last_slice max_seq_len (fid_examples st),
                       item_targets = targets_pad, item_true = tt, item_cat = cat\<rparr>)))"

text \<open>
  \<^verbatim>\<open>ForecastingDataset.__getitem__\<close> on the record \<open>ex = self.data[index]\<close>, with
  \<open>adjust = self.opt.adjust_targets\<close> and \<open>max_seq_len = self.max_seq_len\<close>.
\<close>

definition getitem :: "float_parser \<Rightarrow> bool \<Rightarrow> int \<Rightarrow> example \<Rightarrow> py_error + item" where
  "getitem sf adjust max_seq_len ex =
     (case get_category ex of
        Inl e \<Rightarrow> Inl e
      | Inr cat \<Rightarrow>
          (case true_target sf cat ex of
             Inl e \<Rightarrow> Inl e
           | Inr tt \<Rightarrow>
               (case collect_days sf adjust cat tt ex of
                  Inl e \<Rightarrow> Inl e
                | Inr st \<Rightarrow> finish_item max_seq_len cat tt st)))"

section \<open>The per-day encoder adapter\<close>

text \<open>
  \<^verbatim>\<open>DataLoader(dataset, sampler=SequentialSampler(dataset), batch_size=n, drop_last=False)\<close>:
  consecutive micro-batches of \<open>n\<close> items, the last one shorter.
\<close>

function chunks :: "nat \<Rightarrow> 'a list \<Rightarrow> 'a list list" where
  "chunks n xs = (if n = 0 \<or> xs = [] then [] else take n xs # chunks n (drop n xs))"
  by pat_completeness auto
termination
  by (relation "measure (\<lambda>(n, xs). length xs)") auto

text \<open>
  A tensor as autograd sees it: its values and whether it is attached to the gradient
  graph (\<^verbatim>\<open>requires_grad\<close>).
\<close>

record grad_tensor =
  hidden :: "real list list"
  requires_grad :: bool

record fid_result =
  fr_outputs :: grad_tensor
  fr_mode :: string
  fr_model_training :: bool

text \<open>
  \<^verbatim>\<open>get_fid_outputs\<close>. The tokenizing collator and the encoder are external; their
  composition is the parameter \<open>encode\<close>, which maps the encoder's training flag and one
  micro-batch to one hidden vector per item (\<^verbatim>\<open>model_output[3][-1]\<close>, flattened). A forward
  pass under \<^verbatim>\<open>torch.set_grad_enabled(g)\<close> returns a tensor attached to the graph exactly
  when \<open>g\<close> holds; \<^verbatim>\<open>torch.cat\<close> refuses an empty list and its result is attached when one
  of its arguments is; \<^verbatim>\<open>detach()\<close> returns the values unattached.
\<close>

definition get_fid_outputs ::
  "(bool \<Rightarrow> fid_example list \<Rightarrow> real list list) \<Rightarrow> fid_example list \<Rightarrow> bool \<Rightarrow> string
     \<Rightarrow> py_error + fid_result" where
  "get_fid_outputs encode dataset finetune_encoder mode0 =
     (let mode = (if \<not> finetune_encoder then ''eval'' else mode0);
          training = (mode = ''train'');
          outputs = map (\<lambda>b. \<lparr>hidden = encode training b, requires_grad = (mode = ''train'')\<rparr>)
                      (chunks 16 dataset)
      in if outputs = [] then Inl RuntimeError
         else
           let joined = \<lparr>hidden = concat (map hidden outputs),
                         requires_grad = list_ex requires_grad outputs\<rparr>
           in Inr \<lparr>fr_outputs = (if mode = ''eval'' then joined\<lparr>requires_grad := False\<rparr> else joined),
                   fr_mode = mode, fr_model_training = training\<rparr>)"

section \<open>The sequence batch collator\<close>

text \<open>A batch tensor of shape \<open>[B, t3_len, t3_cols]\<close>.\<close>

record tensor3 =
  t3_len :: nat
  t3_cols :: nat
  t3_seqs :: "real list list list"

text \<open>
  \<^verbatim>\<open>pad_sequence(ts, batch_first=True, padding_value=v)\<close> on two-dimensional tensors. The
  trailing size is that of the first tensor. The model covers lists of tensors of one common
  trailing size and reports every other list as \<^verbatim>\<open>RuntimeError\<close>, as it does the empty
  list.
\<close>

definition pad_sequence2 :: "real \<Rightarrow> tensor2 list \<Rightarrow> py_error + tensor3" where
  "pad_sequence2 v ts =
     (case ts of
        [] \<Rightarrow> Inl RuntimeError
      | t0 # _ \<Rightarrow>
          if list_ex (\<lambda>t. tcols t \<noteq> tcols t0) ts then Inl RuntimeError
          else
            let m = max_len (map trows ts)
            in Inr \<lparr>t3_len = m, t3_cols = tcols t0,
                    t3_seqs = map (\<lambda>t. trows t @ replicate (m - length (trows t))
                                                  (replicate (tcols t0) v)) ts\<rparr>)"

record batch =
  b_examples :: tensor3
  b_mask :: "bool list list"
  b_labels :: tensor3
  b_true_labels :: "real list"
  b_cats :: "nat list"
  b_seq_ends :: "int list"

text \<open>\<^verbatim>\<open>mask[i][seq_len:] = 0\<close> on one row of the mask.\<close>

definition zero_from :: "nat \<Rightarrow> bool list \<Rightarrow> bool list" where
  "zero_from seq_len row = take seq_len row @ replicate (length row - seq_len) False"

text \<open>
  \<^verbatim>\<open>forecaster_collate_fn\<close>. \<^verbatim>\<open>labels[:, :, 0]\<close> needs a trailing dimension that is not
  empty; \<^verbatim>\<open>len(label)\<close> is the number of rows of a label tensor.
\<close>

definition forecaster_collate_fn ::
  "tensor2 list \<Rightarrow> tensor2 list \<Rightarrow> real list \<Rightarrow> nat list \<Rightarrow> py_error + batch" where
  "forecaster_collate_fn examples labels true_labels cats =
     (let seq_lengths = map (\<lambda>l. length (trows l)) labels in
      case pad_sequence2 0 examples of
        Inl e \<Rightarrow> Inl e
      | Inr xs \<Rightarrow>
          (case pad_sequence2 (- 2) labels of
             Inl e \<Rightarrow> Inl e
           | Inr ls \<Rightarrow>
               if t3_cols ls = 0 then Inl IndexError
               else
                 let ones = map (\<lambda>l. replicate (length l) True) (t3_seqs ls);
                     mask = map2 zero_from seq_lengths ones;
                     seq_ends = map (\<lambda>n. int n - 1) seq_lengths
                 in if (length (t3_seqs xs), t3_len xs) \<noteq> (length mask, t3_len ls)
                    then Inl AssertionError
                    else Inr \<lparr>b_examples = xs, b_mask = mask, b_labels = ls,
                              b_true_labels = true_labels, b_cats = cats,
                              b_seq_ends = seq_ends\<rparr>))"

section \<open>The loss of one training step\<close>

text \<open>Boolean-mask indexing \<^verbatim>\<open>x[categories == c, ...]\<close> along the batch dimension.\<close>

definition select_cat :: "nat \<Rightarrow> nat list \<Rightarrow> 'a list \<Rightarrow> 'a list" where
  "select_cat c cats xs = map snd (filter (\<lambda>(k, x). k = c) (zip cats xs))"

definition log_softmax :: "real list \<Rightarrow> real list" where
  "log_softmax xs = map (\<lambda>x. x - ln (sum_list (map exp xs))) xs"

definition mean :: "real list \<Rightarrow> real" where
  "mean xs = sum_list xs / real (length xs)"

text \<open>\<^verbatim>\<open>mask.sum(dim=1)\<close> on one row: the number of valid days.\<close>

definition size_seq :: "bool list \<Rightarrow> real" where
  "size_seq row = real (length (filter id row))"

text \<open>
  Lines 129 to 132 for one example: \<^verbatim>\<open>tf_labels\<close> is \<^verbatim>\<open>labels[..., 0:1]\<close>, the soft target
  of a day is \<^verbatim>\<open>cat((tf_labels, 1 - tf_labels))\<close>.
\<close>

definition tf_day_loss :: "real list \<Rightarrow> real list \<Rightarrow> real" where
  "tf_day_loss logits label_row =
     (let tf_label = take 1 label_row
      in sum_list (map2 (\<lambda>lp q. - lp * q) (log_softmax logits)
                     (tf_label @ map (\<lambda>y. 1 - y) tf_label)))"

definition tf_example_loss :: "real list list \<Rightarrow> real list list \<Rightarrow> bool list \<Rightarrow> real" where
  "tf_example_loss logits label_rows mask_row =
     sum_list (map2 (\<lambda>(lg, lb) m. tf_day_loss lg lb * of_bool m) (zip logits label_rows) mask_row)
       / size_seq mask_row"

text \<open>Lines 133 to 136: the indicator \<^verbatim>\<open>mc_labels >= 0\<close> removes the padding sentinels.\<close>

definition mc_day_loss :: "real list \<Rightarrow> real list \<Rightarrow> real" where
  "mc_day_loss logits label_row =
     sum_list (map2 (\<lambda>lp y. (- lp * y) * of_bool (y \<ge> 0)) (log_softmax logits) label_row)"

definition mc_example_loss :: "real list list \<Rightarrow> real list list \<Rightarrow> bool list \<Rightarrow> real" where
  "mc_example_loss logits label_rows mask_row =
     sum_list (map2 mc_day_loss logits label_rows) / size_seq mask_row"

text \<open>Lines 137 to 139: \<^verbatim>\<open>re_labels\<close> is \<^verbatim>\<open>labels[..., 0]\<close>.\<close>

definition re_example_loss :: "real list \<Rightarrow> real list list \<Rightarrow> bool list \<Rightarrow> real" where
  "re_example_loss results label_rows mask_row =
     sum_list (map2 (\<lambda>(r, lb) m. (r - hd lb)\<^sup>2 * of_bool m) (zip results label_rows) mask_row)
       / size_seq mask_row"

text \<open>
  The inputs of the loss: the three heads' outputs on the whole batch (the forecaster and the
  heads are external) and the collated batch.
\<close>

record head_outputs =
  tf_all :: "real list list list"
  mc_all :: "real list list list"
  re_all :: "real list list"

definition loss_tf :: "head_outputs \<Rightarrow> batch \<Rightarrow> real" where
  "loss_tf hs b =
     (let tf_logits = select_cat 0 (b_cats b) (tf_all hs);
          tf_labels = select_cat 0 (b_cats b) (t3_seqs (b_labels b));
          tf_mask = select_cat 0 (b_cats b) (b_mask b)
      in if length tf_labels > 0
         then mean (map (\<lambda>(lg, lb, m). tf_example_loss lg lb m) (zip tf_logits (zip tf_labels tf_mask)))
         else 0)"

definition loss_mc :: "head_outputs \<Rightarrow> batch \<Rightarrow> real" where
  "loss_mc hs b =
     (let mc_logits = select_cat 1 (b_cats b) (mc_all hs);
          mc_labels = select_cat 1 (b_cats b) (t3_seqs (b_labels b));
          mc_mask = select_cat 1 (b_cats b) (b_mask b)
      in if length mc_labels > 0
         then mean (map (\<lambda>(lg, lb, m). mc_example_loss lg lb m) (zip mc_logits (zip mc_labels mc_mask)))
                / 1.74
         else 0)"

definition loss_re :: "head_outputs \<Rightarrow> batch \<Rightarrow> real" where
  "loss_re hs b =
     (let re_results = select_cat 2 (b_cats b) (re_all hs);
          re_labels = select_cat 2 (b_cats b) (t3_seqs (b_labels b));
          re_mask = select_cat 2 (b_cats b) (b_mask b)
      in if length re_labels > 0
         then mean (map (\<lambda>(r, lb, m). re_example_loss r lb m) (zip re_results (zip re_labels re_mask)))
                / 0.18
         else 0)"

definition train_loss :: "head_outputs \<Rightarrow> batch \<Rightarrow> real" where
  "train_loss hs b = loss_tf hs b + loss_mc hs b + loss_re hs b"

section \<open>Concrete records\<close>

definition mixed_example :: example where
  "mixed_example =
     \<lparr>question = ''Will it rain?'', answers = [PStr ''yes''],
      choices = ChoiceList [''yes'', ''maybe''],
      targets = [\<lparr>date = ''0'', target = PStr ''0.6'', ctxs = None\<rparr>]\<rparr>"

definition yes_no_example :: example where
  "yes_no_example =
     \<lparr>question = ''Will it rain?'', answers = [PStr ''yes''],
      choices = ChoiceList [''yes'', ''no''],
      targets = [\<lparr>date = ''0'', target = PStr ''0.6'', ctxs = None\<rparr>]\<rparr>"

definition sample_float :: float_parser where
  "sample_float = [''0.6'' \<mapsto> 3/5, ''0.7'' \<mapsto> 7/10, ''0.9'' \<mapsto> 9/10]"

definition sample_doc :: doc where
  "sample_doc = \<lparr>doc_title = ''news'', doc_body = ''body'', doc_score = ''1.0''\<rparr>"

definition binary_example :: example where
  "binary_example =
     \<lparr>question = ''Will it happen?'', answers = [PStr ''yes''],
      choices = ChoiceList [''yes'', ''no''],
      targets = [\<lparr>date = ''d0'', target = PStr ''0.6'', ctxs = Some [sample_doc]\<rparr>,
                 \<lparr>date = ''d1'', target = PStr ''0.7'', ctxs = Some [sample_doc]\<rparr>,
                 \<lparr>date = ''d2'', target = PStr ''0.9'', ctxs = Some [sample_doc]\<rparr>]\<rparr>"

definition no_docs_example :: example where
  "no_docs_example =
     \<lparr>question = ''Which option?'', answers = [PStr ''B''],
      choices = ChoiceList [''red'', ''green'', ''blue''],
      targets = [\<lparr>date = ''d0'', target = PList [PNum 1, PNum 2, PNum 1], ctxs = None\<rparr>,
                 \<lparr>date = ''d1'', target = PList [PNum 1, PNum 1, PNum 2], ctxs = Some []\<rparr>]\<rparr>"

definition choice_example :: example where
  "choice_example =
     \<lparr>question = ''Which option?'', answers = [PStr ''B''],
      choices = ChoiceList [''red'', ''green'', ''blue''],
      targets = [\<lparr>date = ''d0'', target = PList [PNum 1, PNum 2, PNum 1],
                  ctxs = Some [sample_doc]\<rparr>]\<rparr>"

definition many_choice_example :: example where
  "many_choice_example =
     \<lparr>question = ''Which of thirteen?'', answers = [PStr ''M''],
      choices = ChoiceList [''a'', ''b'', ''c'', ''d'', ''e'', ''f'', ''g'', ''h'', ''i'', ''j'',
                            ''k'', ''l'', ''m''],
      targets = [\<lparr>date = ''d0'', target = PList (replicate 13 (PNum 1)),
                  ctxs = Some [sample_doc]\<rparr>]\<rparr>"

definition many_no_docs_example :: example where
  "many_no_docs_example =
     many_choice_example
       \<lparr>targets := [\<lparr>date = ''d0'', target = PList (replicate 13 (PNum 1)), ctxs = None\<rparr>]\<rparr>"

definition zeros2 :: "nat \<Rightarrow> nat \<Rightarrow> tensor2" where
  "zeros2 n w = \<lparr>tcols = w, trows = replicate n (replicate w 0)\<rparr>"

definition const_encoder :: "bool \<Rightarrow> fid_example list \<Rightarrow> real list list" where
  "const_encoder training xs = map (\<lambda>x. replicate 8 (if training then 1 else 0)) xs"

definition one_day_dataset :: "fid_example list" where
  "one_day_dataset = [day_copy (hd (targets binary_example)) 0 binary_example]"

definition flat_heads :: head_outputs where
  "flat_heads =
     \<lparr>tf_all = replicate 2 (replicate 4 [0, 0]),
      mc_all = replicate 2 (replicate 4 (replicate 12 0)),
      re_all = replicate 2 (replicate 4 (1/2))\<rparr>"

section \<open>Rounded arithmetic\<close>

text \<open>
  Floating point. The rows of the multiple-choice branch are computed in IEEE double
  precision. The model of a rounded computation applies a rounding function \<open>fl\<close> to the exact
  result of every arithmetic operation of the source; \<open>rounds_within u fl\<close> is the standard
  model of rounding to nearest with unit roundoff \<open>u\<close> where no result overflows or
  underflows: the relative error of each rounding is at most \<open>u\<close>. With the identity for
  \<open>fl\<close> the rounded functions are the exact ones above.
\<close>

definition rounds_within :: "real \<Rightarrow> (real \<Rightarrow> real) \<Rightarrow> bool" where
  "rounds_within u fl = (0 \<le> u \<and> u < 1 \<and> (\<forall>x. \<bar>fl x - x\<bar> \<le> u * \<bar>x\<bar>))"

text \<open>
  \<^verbatim>\<open>sum(targets_mc)\<close>: the builtin adds from the left, starting from 0, and every addition
  rounds.
\<close>

definition fl_sum :: "(real \<Rightarrow> real) \<Rightarrow> real list \<Rightarrow> real" where
  "fl_sum fl xs = foldl (\<lambda>a x. fl (a + x)) 0 xs"

text \<open>Lines 644 and 645 with rounding: one rounded sum, one rounded division per entry.\<close>

definition normalize_row_fl :: "(real \<Rightarrow> real) \<Rightarrow> real list \<Rightarrow> py_error + real list" where
  "normalize_row_fl fl targets_mc =
     (let total = fl_sum fl targets_mc in
      if targets_mc \<noteq> [] \<and> total = 0 then Inl ZeroDivisionError
      else Inr (map (\<lambda>x. fl (x / total)) targets_mc))"

text \<open>
  Line 647 with rounding: \<^verbatim>\<open>(t[i]+1) / 2\<close> is a rounded addition followed by a rounded
  division, \<^verbatim>\<open>t[i] / 2\<close> a rounded division.
\<close>

definition adjust_row_fl :: "(real \<Rightarrow> real) \<Rightarrow> real \<Rightarrow> real list \<Rightarrow> real list" where
  "adjust_row_fl fl tt t =
     map (\<lambda>i. if real i = tt then fl (fl (t ! i + 1) / 2) else fl (t ! i / 2)) [0..<length t]"

text \<open>Lines 637 to 648 with rounding; \<open>day_target\<close> is its instance at the identity.\<close>

definition day_target_fl ::
  "(real \<Rightarrow> real) \<Rightarrow> float_parser \<Rightarrow> bool \<Rightarrow> category \<Rightarrow> nat \<Rightarrow> real \<Rightarrow> pyval
     \<Rightarrow> py_error + real list" where
  "day_target_fl fl sf adjust cat len tt v =
     (if cat = BinaryTF \<or> cat = Regression then
        (case py_float sf v of
           Inl e \<Rightarrow> Inl e
         | Inr t \<Rightarrow> Inr [if adjust then fl (fl (t + tt) / 2) else t])
      else
        (case slice_prefix v len of
           Inl e \<Rightarrow> Inl e
         | Inr preds \<Rightarrow>
             (case map_err (py_float sf) preds of
                Inl e \<Rightarrow> Inl e
              | Inr targets_mc \<Rightarrow>
                  (case normalize_row_fl fl targets_mc of
                     Inl e \<Rightarrow> Inl e
                   | Inr t \<Rightarrow> Inr (if adjust then adjust_row_fl fl tt t else t)))))"

text \<open>
  The bounds on the sum of a normalised row of \<open>n\<close> entries under unit roundoff \<open>u\<close>; both are
  1 at \<open>u = 0\<close>.
\<close>

definition sum_lower :: "real \<Rightarrow> nat \<Rightarrow> real" where
  "sum_lower u n = (1 - u) / (1 + u) ^ n"

definition sum_upper :: "real \<Rightarrow> nat \<Rightarrow> real" where
  "sum_upper u n = (1 + u) / (1 - u) ^ n"

text \<open>A rounding function with relative error one thousandth, for concrete instances.\<close>

definition up_rounding :: "real \<Rightarrow> real" where
  "up_rounding x = x * (1001 / 1000)"

section \<open>Properties of the classification\<close>

lemma get_category_dict: "choices ex = ChoiceDict kv \<Longrightarrow> get_category ex = Inr Regression"
  by (simp add: get_category_def)

lemma get_category_no_choices:
  "choices ex = ChoiceList [] \<Longrightarrow> get_category ex = Inl IndexError"
  by (simp add: get_category_def)

lemma get_category_after_getitem: "get_category (after_getitem ex) = get_category ex"
proof -
  have "is_list (target (clear_ctxs d)) = is_list (target d)" for d
    by (simp add: clear_ctxs_def)
  then have "many_or_list_target cs (after_getitem ex) = many_or_list_target cs ex" for cs
    by (cases "targets ex") (simp_all add: many_or_list_target_def after_getitem_def)
  then show ?thesis
    by (simp add: get_category_def after_getitem_def split: choice_set.splits list.splits)
qed

text \<open>
  Where the classifier raises: on an empty list of options, on a single option that is not a
  yes/no word (\<^verbatim>\<open>choices[1]\<close> is read), and on an empty list of days once the first-day
  target has to be inspected. Everywhere else it returns \<open>amended_category\<close>.
\<close>

lemma get_category_total:
  "get_category ex =
     (case choices ex of
        ChoiceDict kv \<Rightarrow> Inr Regression
      | ChoiceList cs \<Rightarrow>
          if cs = [] \<or> (length cs = 1 \<and> hd cs \<notin> set tf_choices) then Inl IndexError
          else if length cs > 2 \<or> (2 \<le> length cs \<and> first_two_non_yes_no cs)
            then Inr MultiChoice
          else if targets ex = [] then Inl IndexError
          else Inr (amended_category ex))"
proof (cases "choices ex")
  case (ChoiceDict kv)
  then show ?thesis by (simp add: get_category_def)
next
  case (ChoiceList cs)
  show ?thesis
  proof (cases cs)
    case Nil
    with ChoiceList show ?thesis by (simp add: get_category_def)
  next
    case outer: (Cons c0 rest)
    show ?thesis
    proof (cases rest)
      case Nil
      with ChoiceList outer show ?thesis
        by (cases "targets ex")
          (simp_all add: get_category_def many_or_list_target_def amended_category_def
            first_two_non_yes_no_def first_target_is_list_def)
    next
      case inner: (Cons c1 rest')
      with ChoiceList outer show ?thesis
        by (cases "targets ex"; cases rest')
          (simp_all add: get_category_def many_or_list_target_def amended_category_def
            first_two_non_yes_no_def first_target_is_list_def)
    qed
  qed
qed

text \<open>
  C1 as stated fails: a list of two options that mixes a yes/no word with another word has
  a non-yes/no value, so the claim makes the record MultiChoice; the code reads only whether
  both of the first two options are outside the yes/no words and returns BinaryTF. The
  classifier also raises on the empty choice list instead of returning a category.
\<close>

theorem get_category_counterexample:
  "classifiable mixed_example
   \<and> non_yes_no_values [''yes'', ''maybe'']
   \<and> spec_category mixed_example = MultiChoice
   \<and> get_category mixed_example = Inr BinaryTF
   \<and> get_category mixed_example \<noteq> Inr (spec_category mixed_example)
   \<and> get_category (mixed_example\<lparr>choices := ChoiceList []\<rparr>) = Inl IndexError"
  by (simp add: classifiable_def mixed_example_def non_yes_no_values_def spec_category_def
      tf_choices_def get_category_def many_or_list_target_def is_list_def
      first_target_is_list_def)

text \<open>
  C1, as amended. For every record whose choice set is a mapping, or a list of at least two
  options together with at least one day, category classification is a function of the
  record's choices and first-day target: a mapping yields Regression (id 2); otherwise a
  list with more than two options, or whose first two options are both not yes/no words, or
  with a list-valued first-day target yields MultiChoice (id 1); otherwise BinaryTF (id 0).
  Classifying again, also after \<^verbatim>\<open>__getitem__\<close> has updated the record in place, returns the
  same category.
\<close>

theorem get_category_classification:
  assumes "classifiable ex"
  shows "get_category ex = Inr (amended_category ex)
       \<and> (\<forall>kv. choices ex = ChoiceDict kv \<longrightarrow> get_category ex = Inr Regression)
       \<and> cat_id (amended_category ex) \<in> {0, 1, 2}
       \<and> get_category (after_getitem ex) = get_category ex"
proof -
  have main: "get_category ex = Inr (amended_category ex)"
  proof (cases "choices ex")
    case (ChoiceDict kv)
    then show ?thesis by (simp add: get_category_def amended_category_def)
  next
    case (ChoiceList cs)
    with assms have len: "2 \<le> length cs" and days: "targets ex \<noteq> []"
      by (simp_all add: classifiable_def)
    from len have ne: "cs \<noteq> []" "length cs \<noteq> 1" by auto
    from ChoiceList ne days len show ?thesis
      by (subst get_category_total) (auto simp: amended_category_def)
  qed
  have ids: "cat_id (amended_category ex) \<in> {0, 1, 2}"
    by (cases "amended_category ex") simp_all
  have dict: "\<forall>kv. choices ex = ChoiceDict kv \<longrightarrow> get_category ex = Inr Regression"
    by (simp add: get_category_dict)
  from main dict ids get_category_after_getitem [of ex] show ?thesis
    by blast
qed

theorem get_category_classification_witness:
  "classifiable yes_no_example \<and> get_category yes_no_example = Inr BinaryTF
   \<and> get_category (after_getitem yes_no_example) = Inr BinaryTF"
proof -
  have c: "classifiable yes_no_example"
    by (simp add: classifiable_def yes_no_example_def)
  have s: "amended_category yes_no_example = BinaryTF"
    by (simp add: amended_category_def yes_no_example_def first_two_non_yes_no_def
        first_target_is_list_def tf_choices_def is_list_def)
  from get_category_classification [OF c] c s show ?thesis by simp
qed

section \<open>Invariants of the day loop\<close>

lemma days_loop_lengths:
  "days_loop sf adjust cat len tt ex i ds st = Inr st' \<Longrightarrow>
   length (target_rows st') = length (target_rows st) + length (filter (\<lambda>d. \<not> no_ctxs d) ds)
   \<and> length (fid_examples st') = length (fid_examples st) + length (filter (\<lambda>d. \<not> no_ctxs d) ds)"
proof (induction ds arbitrary: i st)
  case Nil
  then show ?case by simp
next
  case (Cons d ds)
  show ?case
  proof (cases "no_ctxs d")
    case True
    with Cons.prems Cons.IH [of "Suc i" "st\<lparr>visited := visited st @ [d\<lparr>ctxs := Some []\<rparr>]\<rparr>"]
    show ?thesis by simp
  next
    case False
    with Cons.prems obtain t where t: "day_target sf adjust cat len tt (target d) = Inr t"
      by (cases "day_target sf adjust cat len tt (target d)") auto
    with False Cons.prems
      Cons.IH [of "Suc i" "st\<lparr>has_ctxs := True, target_rows := target_rows st @ [t],
                   fid_examples := fid_examples st @ [day_copy d i ex],
                   visited := visited st @ [d]\<rparr>"]
    show ?thesis by simp
  qed
qed

lemma days_loop_visited:
  "days_loop sf adjust cat len tt ex i ds st = Inr st' \<Longrightarrow>
   visited st' = visited st @ map clear_ctxs ds"
proof (induction ds arbitrary: i st)
  case Nil
  then show ?case by simp
next
  case (Cons d ds)
  show ?case
  proof (cases "no_ctxs d")
    case True
    with Cons.prems Cons.IH [of "Suc i" "st\<lparr>visited := visited st @ [d\<lparr>ctxs := Some []\<rparr>]\<rparr>"]
    show ?thesis by (simp add: clear_ctxs_def)
  next
    case False
    with Cons.prems obtain t where t: "day_target sf adjust cat len tt (target d) = Inr t"
      by (cases "day_target sf adjust cat len tt (target d)") auto
    with False Cons.prems
      Cons.IH [of "Suc i" "st\<lparr>has_ctxs := True, target_rows := target_rows st @ [t],
                   fid_examples := fid_examples st @ [day_copy d i ex],
                   visited := visited st @ [d]\<rparr>"]
    show ?thesis by (simp add: clear_ctxs_def)
  qed
qed

lemma days_loop_has_ctxs:
  "days_loop sf adjust cat len tt ex i ds st = Inr st' \<Longrightarrow>
   has_ctxs st' = (has_ctxs st \<or> (\<exists>d \<in> set ds. \<not> no_ctxs d))"
proof (induction ds arbitrary: i st)
  case Nil
  then show ?case by simp
next
  case (Cons d ds)
  show ?case
  proof (cases "no_ctxs d")
    case True
    with Cons.prems Cons.IH [of "Suc i" "st\<lparr>visited := visited st @ [d\<lparr>ctxs := Some []\<rparr>]\<rparr>"]
    show ?thesis by simp
  next
    case False
    with Cons.prems obtain t where t: "day_target sf adjust cat len tt (target d) = Inr t"
      by (cases "day_target sf adjust cat len tt (target d)") auto
    with False Cons.prems
      Cons.IH [of "Suc i" "st\<lparr>has_ctxs := True, target_rows := target_rows st @ [t],
                   fid_examples := fid_examples st @ [day_copy d i ex],
                   visited := visited st @ [d]\<rparr>"]
    show ?thesis by auto
  qed
qed

lemma days_loop_no_docs:
  "\<forall>d \<in> set ds. no_ctxs d \<Longrightarrow>
   days_loop sf adjust cat len tt ex i ds st = Inr (st\<lparr>visited := visited st @ map clear_ctxs ds\<rparr>)"
proof (induction ds arbitrary: i st)
  case Nil
  then show ?case by simp
next
  case (Cons d ds)
  then show ?case by (simp add: clear_ctxs_def)
qed

lemma map_err_length: "map_err f xs = Inr ys \<Longrightarrow> length ys = length xs"
  by (induction xs arbitrary: ys) (auto split: sum.splits)

lemma map_err_nth:
  "map_err f xs = Inr ys \<Longrightarrow> i < length xs \<Longrightarrow> f (xs ! i) = Inr (ys ! i)"
proof (induction xs arbitrary: ys i)
  case Nil
  then show ?case by simp
next
  case (Cons x xs)
  then show ?case by (cases i) (auto split: sum.splits)
qed

lemma slice_prefix_length: "slice_prefix v n = Inr ps \<Longrightarrow> length ps \<le> n"
  by (auto simp: slice_prefix_def split: pyval.splits)

lemma normalize_row_length: "normalize_row xs = Inr t \<Longrightarrow> length t = length xs"
  by (auto simp: normalize_row_def Let_def split: if_splits)

lemma adjust_row_length: "length (adjust_row tt t) = length t"
  by (simp add: adjust_row_def)

lemma day_target_length:
  assumes "day_target sf adjust cat len tt v = Inr t"
  shows "length t \<le> max 1 len"
proof (cases "cat = BinaryTF \<or> cat = Regression")
  case True
  with assms show ?thesis
    by (auto simp: day_target_def split: sum.splits)
next
  case False
  with assms obtain ps xs t0 where
    ps: "slice_prefix v len = Inr ps" and xs: "map_err (py_float sf) ps = Inr xs"
    and t0: "normalize_row xs = Inr t0" and t: "t = (if adjust then adjust_row tt t0 else t0)"
    by (auto simp: day_target_def split: sum.splits)
  from t have "length t = length t0" by (simp add: adjust_row_length)
  also have "\<dots> = length ps"
    using normalize_row_length [OF t0] map_err_length [OF xs] by simp
  also have "\<dots> \<le> len" by (rule slice_prefix_length [OF ps])
  finally show ?thesis by simp
qed

lemma days_loop_rows:
  "days_loop sf adjust cat len tt ex i ds st = Inr st' \<Longrightarrow>
   \<forall>r \<in> set (target_rows st). length r \<le> max 1 len \<Longrightarrow>
   \<forall>r \<in> set (target_rows st'). length r \<le> max 1 len"
proof (induction ds arbitrary: i st)
  case Nil
  then show ?case by simp
next
  case (Cons d ds)
  show ?case
  proof (cases "no_ctxs d")
    case True
    let ?st = "st\<lparr>visited := visited st @ [d\<lparr>ctxs := Some []\<rparr>]\<rparr>"
    from True Cons.prems(1) have "days_loop sf adjust cat len tt ex (Suc i) ds ?st = Inr st'"
      by simp
    moreover from Cons.prems(2) have "\<forall>r \<in> set (target_rows ?st). length r \<le> max 1 len"
      by simp
    ultimately show ?thesis by (rule Cons.IH)
  next
    case False
    with Cons.prems obtain t where t: "day_target sf adjust cat len tt (target d) = Inr t"
      by (cases "day_target sf adjust cat len tt (target d)") auto
    let ?st = "st\<lparr>has_ctxs := True, target_rows := target_rows st @ [t],
                   fid_examples := fid_examples st @ [day_copy d i ex],
                   visited := visited st @ [d]\<rparr>"
    from False t Cons.prems(1) have "days_loop sf adjust cat len tt ex (Suc i) ds ?st = Inr st'"
      by simp
    moreover from day_target_length [OF t] Cons.prems(2)
    have "\<forall>r \<in> set (target_rows ?st). length r \<le> max 1 len"
      by simp
    ultimately show ?thesis by (rule Cons.IH)
  qed
qed

lemma indicator_row_length: "length (indicator_row len tt) = len"
  by (simp add: indicator_row_def)

lemma collect_days_lengths:
  assumes "collect_days sf adjust cat tt ex = Inr st"
  shows "length (target_rows st) = length (fid_examples st)"
proof -
  define len where "len = min (num_choices (choices ex)) max_choice_len"
  from assms obtain st0 where
    loop: "days_loop sf adjust cat len tt ex 0 (targets ex) init_state = Inr st0"
    and fb: "fallback cat len tt ex st0 = Inr st"
    by (auto simp: collect_days_def Let_def len_def split: sum.splits)
  from days_loop_lengths [OF loop]
  have "length (target_rows st0) = length (fid_examples st0)"
    by (simp add: init_state_def)
  with fb show ?thesis
    by (auto simp: fallback_def split: if_splits)
qed

lemma collect_days_rows:
  assumes "collect_days sf adjust cat tt ex = Inr st"
  shows "\<forall>r \<in> set (target_rows st). length r \<le> max_choice_len"
proof -
  define len where "len = min (num_choices (choices ex)) max_choice_len"
  from assms obtain st0 where
    loop: "days_loop sf adjust cat len tt ex 0 (targets ex) init_state = Inr st0"
    and fb: "fallback cat len tt ex st0 = Inr st"
    by (auto simp: collect_days_def Let_def len_def split: sum.splits)
  have bound: "max 1 len \<le> max_choice_len"
    by (simp add: len_def max_choice_len_def)
  from days_loop_rows [OF loop]
  have "\<forall>r \<in> set (target_rows st0). length r \<le> max 1 len"
    by (simp add: init_state_def)
  with fb have "\<forall>r \<in> set (target_rows st). length r \<le> max 1 len"
    by (auto simp: fallback_def indicator_row_length split: if_splits)
  with bound show ?thesis by (blast intro: order_trans)
qed

lemma max_len_ge: "r \<in> set rs \<Longrightarrow> length r \<le> max_len rs"
  by (induction rs) (auto simp: max_len_def)

lemma max_len_le: "\<forall>r \<in> set rs. length r \<le> n \<Longrightarrow> max_len rs \<le> n"
  by (induction rs) (auto simp: max_len_def)

lemma set_last_slice: "set (last_slice m xs) \<subseteq> set xs"
  by (auto simp: last_slice_def Let_def dest: in_set_dropD)

lemma last_slice_recent: "0 < m \<Longrightarrow> last_slice m xs = drop (length xs - nat m) xs"
  by (auto simp: last_slice_def Let_def max_def nat_diff_distrib' intro: arg_cong [where f = "\<lambda>n. drop n xs"])

lemma length_last_slice_eq:
  "length xs = length ys \<Longrightarrow> length (last_slice m xs) = length (last_slice m ys)"
  by (simp add: last_slice_def Let_def)

lemma finish_item_result:
  assumes rows: "\<forall>r \<in> set (target_rows st). length r \<le> max_choice_len"
    and len: "length (target_rows st) = length (fid_examples st)"
    and ne: "last_slice m (target_rows st) \<noteq> []"
  shows "finish_item m cat tt st =
     Inr \<lparr>item_fid = last_slice m (fid_examples st),
          item_targets = \<lparr>tcols = max_choice_len,
             trows = map (\<lambda>r. r @ replicate (max_choice_len - length r) (- 1))
                       (last_slice m (target_rows st))\<rparr>,
          item_true = tt, item_cat = cat\<rparr>"
proof -
  let ?rs = "last_slice m (target_rows st)"
  from rows set_last_slice [of m "target_rows st"]
  have b: "\<forall>r \<in> set ?rs. length r \<le> max_choice_len" by auto
  then have w: "max_len ?rs \<le> max_choice_len" by (rule max_len_le)
  have "(r @ replicate (max_len ?rs - length r) (- 1)) @ replicate (max_choice_len - max_len ?rs) (- 1)
        = r @ replicate (max_choice_len - length r) (- 1 :: real)" if "r \<in> set ?rs" for r
  proof -
    from that have "length r \<le> max_len ?rs" by (rule max_len_ge)
    with w have "(max_len ?rs - length r) + (max_choice_len - max_len ?rs) = max_choice_len - length r"
      by simp
    then show ?thesis by (simp add: replicate_add [symmetric])
  qed
  then have "map (\<lambda>r. r @ replicate (max_choice_len - max_len ?rs) (- 1))
               (map (\<lambda>r. r @ replicate (max_len ?rs - length r) (- 1)) ?rs)
           = map (\<lambda>r. r @ replicate (max_choice_len - length r) (- 1 :: real)) ?rs"
    by simp
  with w ne len show ?thesis
    by (simp add: finish_item_def pad_sequence1_def fill_targets_pad_def)
qed

lemma finish_item_errors:
  assumes len: "length (target_rows st) = length (fid_examples st)"
    and ne: "last_slice m (target_rows st) = []"
  shows "finish_item m cat tt st = Inl RuntimeError"
  using assms by (simp add: finish_item_def pad_sequence1_def)

section \<open>Lengths of the produced sequences\<close>

lemma get_category_not_assert: "get_category ex \<noteq> Inl AssertionError"
  by (simp add: get_category_def many_or_list_target_def
      split: choice_set.splits list.splits)

lemma py_float_not_assert: "py_float sf v \<noteq> Inl AssertionError"
  by (simp add: py_float_def split: pyval.splits option.splits)

lemma true_target_not_assert: "true_target sf cat ex \<noteq> Inl AssertionError"
  by (simp add: true_target_def py_float_not_assert
      split: list.splits category.splits pyval.splits option.splits)

lemma map_err_not_assert:
  "(\<And>x. f x \<noteq> Inl AssertionError) \<Longrightarrow> map_err f xs \<noteq> Inl AssertionError"
  by (induction xs) (auto split: sum.splits)

lemma day_target_not_assert: "day_target sf adjust cat len tt v \<noteq> Inl AssertionError"
proof -
  have a: "slice_prefix v len \<noteq> Inl AssertionError"
    by (simp add: slice_prefix_def split: pyval.splits)
  have b: "map_err (py_float sf) ps \<noteq> Inl AssertionError" for ps
    by (rule map_err_not_assert) (rule py_float_not_assert)
  have c: "normalize_row xs \<noteq> Inl AssertionError" for xs
    by (simp add: normalize_row_def Let_def)
  from a b c py_float_not_assert [of sf v] show ?thesis
    by (auto simp: day_target_def split: sum.splits)
qed

lemma days_loop_not_assert:
  "days_loop sf adjust cat len tt ex i ds st \<noteq> Inl AssertionError"
proof (induction ds arbitrary: i st)
  case Nil
  show ?case by simp
next
  case (Cons d ds)
  show ?case
    using Cons.IH day_target_not_assert [of sf adjust cat len tt "target d"]
    by (auto split: sum.splits)
qed

lemma collect_days_not_assert: "collect_days sf adjust cat tt ex \<noteq> Inl AssertionError"
  using days_loop_not_assert
  by (auto simp: collect_days_def Let_def fallback_def split: sum.splits)

lemma finish_item_not_assert:
  assumes "length (target_rows st) = length (fid_examples st)"
  shows "finish_item m cat tt st \<noteq> Inl AssertionError"
  using assms
  by (auto simp: finish_item_def pad_sequence1_def fill_targets_pad_def split: sum.splits)

lemma finish_item_lengths:
  assumes "finish_item m cat tt st = Inr out"
  shows "length (item_fid out) = length (trows (item_targets out))
       \<and> item_fid out = last_slice m (fid_examples st)
       \<and> length (trows (item_targets out)) = length (last_slice m (target_rows st))"
proof -
  from assms have len: "length (target_rows st) = length (fid_examples st)"
    by (auto simp: finish_item_def split: if_splits)
  from assms have "item_fid out = last_slice m (fid_examples st)"
    and "length (trows (item_targets out)) = length (last_slice m (target_rows st))"
    by (auto simp: finish_item_def pad_sequence1_def fill_targets_pad_def
        split: if_splits sum.splits)
  with length_last_slice_eq [OF len, of m] show ?thesis by simp
qed

text \<open>
  C2. The example transformer never fails its assertion
  \<^verbatim>\<open>assert len(targets) == len(fid_examples)\<close>: the two lists have one length when the
  assertion is reached (before truncation), and the returned list of day sub-examples has as
  many entries as the returned target tensor has rows (after truncation to the last
  \<^verbatim>\<open>max_seq_len\<close> entries). This holds for every record, in particular for every record with
  at least one day containing documents.
\<close>

theorem getitem_lengths_agree:
  "getitem sf adjust m ex \<noteq> Inl AssertionError
   \<and> (\<forall>cat tt st. collect_days sf adjust cat tt ex = Inr st \<longrightarrow>
         length (fid_examples st) = length (target_rows st))
   \<and> (\<forall>out. getitem sf adjust m ex = Inr out \<longrightarrow>
         length (item_fid out) = length (trows (item_targets out)))"
proof (intro conjI allI impI)
  show "getitem sf adjust m ex \<noteq> Inl AssertionError"
  proof (cases "get_category ex")
    case (Inl e)
    with get_category_not_assert [of ex] show ?thesis by (simp add: getitem_def)
  next
    case cat: (Inr cat)
    show ?thesis
    proof (cases "true_target sf cat ex")
      case (Inl e)
      with cat true_target_not_assert [of sf cat ex] show ?thesis by (simp add: getitem_def)
    next
      case tt: (Inr tt)
      show ?thesis
      proof (cases "collect_days sf adjust cat tt ex")
        case (Inl e)
        with cat tt collect_days_not_assert [of sf adjust cat tt ex] show ?thesis
          by (simp add: getitem_def)
      next
        case (Inr st)
        from collect_days_lengths [OF Inr] have "finish_item m cat tt st \<noteq> Inl AssertionError"
          by (rule finish_item_not_assert)
        with cat tt Inr show ?thesis by (simp add: getitem_def)
      qed
    qed
  qed
next
  fix cat tt st
  assume "collect_days sf adjust cat tt ex = Inr st"
  then show "length (fid_examples st) = length (target_rows st)"
    by (simp add: collect_days_lengths)
next
  fix out
  assume "getitem sf adjust m ex = Inr out"
  then obtain cat tt st where "finish_item m cat tt st = Inr out"
    by (auto simp: getitem_def split: sum.splits)
  then show "length (item_fid out) = length (trows (item_targets out))"
    by (rule finish_item_lengths [THEN conjunct1])
qed

lemma binary_category: "get_category binary_example = Inr BinaryTF"
  by (simp add: get_category_def binary_example_def tf_choices_def many_or_list_target_def
      is_list_def)

lemma binary_true_target: "true_target sample_float BinaryTF binary_example = Inr 1"
  by (simp add: true_target_def binary_example_def STR2BOOL_def)

lemma binary_collect:
  "collect_days sample_float False BinaryTF 1 binary_example =
   Inr \<lparr>fid_examples = [day_copy (targets binary_example ! 0) 0 binary_example,
                         day_copy (targets binary_example ! 1) 1 binary_example,
                         day_copy (targets binary_example ! 2) 2 binary_example],
        target_rows = [[3/5], [7/10], [9/10]], has_ctxs = True,
        visited = targets binary_example\<rparr>"
  by (simp add: collect_days_def binary_example_def init_state_def no_ctxs_def day_target_def
      py_float_def sample_float_def fallback_def sample_doc_def numeral_2_eq_2)

lemma binary_getitem:
  "getitem sample_float False 128 binary_example =
   Inr \<lparr>item_fid = [day_copy (targets binary_example ! 0) 0 binary_example,
                     day_copy (targets binary_example ! 1) 1 binary_example,
                     day_copy (targets binary_example ! 2) 2 binary_example],
        item_targets = \<lparr>tcols = 12,
           trows = [[3/5, -1, -1, -1, -1, -1, -1, -1, -1, -1, -1, -1],
                    [7/10, -1, -1, -1, -1, -1, -1, -1, -1, -1, -1, -1],
                    [9/10, -1, -1, -1, -1, -1, -1, -1, -1, -1, -1, -1]]\<rparr>,
        item_true = 1, item_cat = BinaryTF\<rparr>"
  by (simp add: getitem_def binary_category binary_true_target binary_collect finish_item_def
      last_slice_def pad_sequence1_def max_len_def fill_targets_pad_def max_choice_len_def
      numeral_eq_Suc)

theorem getitem_lengths_agree_witness:
  "(\<exists>d \<in> set (targets binary_example). \<not> no_ctxs d)
   \<and> getitem sample_float False 128 binary_example \<noteq> Inl AssertionError
   \<and> (\<exists>out. getitem sample_float False 128 binary_example = Inr out
          \<and> length (item_fid out) = 3 \<and> length (trows (item_targets out)) = 3)"
proof -
  have d: "\<exists>d \<in> set (targets binary_example). \<not> no_ctxs d"
    by (simp add: binary_example_def no_ctxs_def)
  from getitem_lengths_agree [of sample_float False 128 binary_example] d binary_getitem
  show ?thesis by simp
qed

section \<open>The fallback sub-example\<close>

lemma last_slice_single: "0 \<le> m \<Longrightarrow> last_slice m [x] = [x]"
  by (simp add: last_slice_def Let_def)

lemma collect_days_no_docs:
  assumes days: "targets ex \<noteq> []" and nodocs: "\<forall>d \<in> set (targets ex). no_ctxs d"
  shows "collect_days sf adjust cat tt ex =
     Inr \<lparr>fid_examples = [day_copy ((last (targets ex))\<lparr>ctxs := Some []\<rparr>) 0 ex],
          target_rows = [if cat = BinaryTF \<or> cat = Regression then [tt]
                         else indicator_row (min (num_choices (choices ex)) max_choice_len) tt],
          has_ctxs = False,
          visited = map clear_ctxs (targets ex)\<rparr>"
proof -
  from days nodocs have "no_ctxs (last (targets ex))" by simp
  then have "clear_ctxs (last (targets ex)) = (last (targets ex))\<lparr>ctxs := Some []\<rparr>"
    by (simp add: clear_ctxs_def)
  with days have "last (map clear_ctxs (targets ex)) = (last (targets ex))\<lparr>ctxs := Some []\<rparr>"
    by (simp add: last_map)
  with days show ?thesis
    by (simp add: collect_days_def Let_def days_loop_no_docs [OF nodocs] fallback_def
        init_state_def)
qed

text \<open>
  The record as \<^verbatim>\<open>__getitem__\<close> leaves it is \<open>after_getitem\<close>; a record with no day at all
  reaches the fallback with the name \<^verbatim>\<open>day\<close> unbound.
\<close>

lemma collect_days_visited:
  assumes "collect_days sf adjust cat tt ex = Inr st"
  shows "visited st = targets (after_getitem ex)"
proof -
  from assms obtain st0 where
    loop: "days_loop sf adjust cat (min (num_choices (choices ex)) max_choice_len) tt ex 0
             (targets ex) init_state = Inr st0"
    and fb: "fallback cat (min (num_choices (choices ex)) max_choice_len) tt ex st0 = Inr st"
    by (auto simp: collect_days_def Let_def split: sum.splits)
  from days_loop_visited [OF loop] have "visited st0 = map clear_ctxs (targets ex)"
    by (simp add: init_state_def)
  with fb show ?thesis
    by (auto simp: fallback_def after_getitem_def split: if_splits)
qed

lemma no_days_unbound:
  assumes "targets ex = []" and "get_category ex = Inr cat" and "true_target sf cat ex = Inr tt"
  shows "getitem sf adjust m ex = Inl UnboundLocalError"
  using assms
  by (simp add: getitem_def collect_days_def Let_def fallback_def init_state_def)

lemma indicator_row_inside:
  assumes "k < len"
  shows "indicator_row len (real k) = replicate k 0 @ 1 # replicate (len - Suc k) 0"
proof (rule nth_equalityI)
  from assms show "length (indicator_row len (real k))
      = length (replicate k (0::real) @ 1 # replicate (len - Suc k) 0)"
    by (simp add: indicator_row_def)
next
  fix i
  assume "i < length (indicator_row len (real k))"
  then have i: "i < len" by (simp add: indicator_row_def)
  show "indicator_row len (real k) ! i = (replicate k 0 @ 1 # replicate (len - Suc k) 0) ! i"
  proof (cases "i < k")
    case True
    with i show ?thesis by (simp add: indicator_row_def nth_append)
  next
    case False
    show ?thesis
    proof (cases "i = k")
      case True
      with i show ?thesis by (simp add: indicator_row_def nth_append)
    next
      case ne: False
      with False have "k < i" by simp
      with i show ?thesis by (simp add: indicator_row_def nth_append nth_Cons')
    qed
  qed
qed

lemma indicator_row_outside:
  assumes "\<forall>i < len. real i \<noteq> tt"
  shows "indicator_row len tt = replicate len 0"
  using assms by (auto simp: indicator_row_def intro: nth_equalityI)

text \<open>
  C3 as stated fails: a question with thirteen options whose answer is the thirteenth
  (\<^verbatim>\<open>'M'\<close>, index 12) and whose only day has no documents yields one fallback sub-example
  whose target row has twelve entries, all of them 0: no entry is 1, because the true choice
  lies beyond the first \<^verbatim>\<open>max_choice_len\<close> positions.
\<close>

theorem fallback_example_counterexample:
  "targets many_no_docs_example \<noteq> []
   \<and> list_all no_ctxs (targets many_no_docs_example)
   \<and> get_category many_no_docs_example = Inr MultiChoice
   \<and> true_target sample_float MultiChoice many_no_docs_example = Inr 12
   \<and> (\<exists>out. getitem sample_float False 128 many_no_docs_example = Inr out
          \<and> length (item_fid out) = 1
          \<and> trows (item_targets out) = [replicate 12 0]
          \<and> list_all (\<lambda>x. x \<noteq> 1) (hd (trows (item_targets out))))"
proof -
  let ?ex = many_no_docs_example
  have days: "targets ?ex \<noteq> []"
    by (simp add: many_no_docs_example_def)
  have nodocs: "\<forall>d \<in> set (targets ?ex). no_ctxs d"
    by (simp add: many_no_docs_example_def no_ctxs_def)
  have cat: "get_category ?ex = Inr MultiChoice"
    by (simp add: get_category_def many_no_docs_example_def many_choice_example_def
        tf_choices_def)
  have tt: "true_target sample_float MultiChoice ?ex = Inr 12"
    by (simp add: true_target_def many_no_docs_example_def many_choice_example_def)
  have len: "min (num_choices (choices ?ex)) max_choice_len = 12"
    by (simp add: many_no_docs_example_def many_choice_example_def num_choices_def
        max_choice_len_def)
  have row: "indicator_row 12 12 = replicate 12 0"
    by (rule indicator_row_outside) simp
  let ?st = "\<lparr>fid_examples = [day_copy ((last (targets ?ex))\<lparr>ctxs := Some []\<rparr>) 0 ?ex],
            target_rows = [replicate 12 0], has_ctxs = False,
            visited = map clear_ctxs (targets ?ex)\<rparr>"
  have cd: "collect_days sample_float False MultiChoice 12 ?ex = Inr ?st"
    using collect_days_no_docs [OF days nodocs, of sample_float False MultiChoice 12]
    by (simp add: len row)
  have "finish_item 128 MultiChoice 12 ?st =
     Inr \<lparr>item_fid = last_slice 128 (fid_examples ?st),
          item_targets = \<lparr>tcols = max_choice_len,
             trows = map (\<lambda>r. r @ replicate (max_choice_len - length r) (- 1))
                       (last_slice 128 (target_rows ?st))\<rparr>,
          item_true = 12, item_cat = MultiChoice\<rparr>"
    by (rule finish_item_result) (simp_all add: max_choice_len_def last_slice_single)
  then have fin: "finish_item 128 MultiChoice 12 ?st =
     Inr \<lparr>item_fid = [day_copy ((last (targets ?ex))\<lparr>ctxs := Some []\<rparr>) 0 ?ex],
          item_targets = \<lparr>tcols = max_choice_len, trows = [replicate 12 0]\<rparr>,
          item_true = 12, item_cat = MultiChoice\<rparr>"
    by (simp add: last_slice_single max_choice_len_def)
  have g: "getitem sample_float False 128 ?ex =
     Inr \<lparr>item_fid = [day_copy ((last (targets ?ex))\<lparr>ctxs := Some []\<rparr>) 0 ?ex],
          item_targets = \<lparr>tcols = max_choice_len, trows = [replicate 12 0]\<rparr>,
          item_true = 12, item_cat = MultiChoice\<rparr>"
    by (simp add: getitem_def cat tt cd fin)
  have z: "list_all (\<lambda>x. x \<noteq> 1) (replicate 12 (0::real))"
    by (simp add: list_all_iff)
  from days nodocs cat tt g z show ?thesis
    by (simp add: list_all_iff)
qed

text \<open>
  C3, as amended. For a record with at least one day, none of which contains documents, whose
  answer is well-formed for its category, and a non-negative \<^verbatim>\<open>max_seq_len\<close>, the example
  transformer returns exactly one day sub-example. It is the copy of the last day with \<^verbatim>\<open>id\<close>
  0, and its target row is the indicator of the true label: for BinaryTF and Regression the
  single entry is the true label; for MultiChoice the row has
  \<^verbatim>\<open>min(num_choices, max_choice_len)\<close> entries, it is one-hot (1 at the true choice, 0 elsewhere)
  when the true choice is one of its positions, and all zeros when the true choice lies
  beyond them. The row is padded with \<open>- 1\<close> to \<^verbatim>\<open>max_choice_len\<close> columns.
\<close>

theorem fallback_example:
  assumes days: "targets ex \<noteq> []"
    and nodocs: "\<forall>d \<in> set (targets ex). no_ctxs d"
    and cat: "get_category ex = Inr cat"
    and tt: "true_target sf cat ex = Inr tt"
    and m: "0 \<le> m"
  shows "\<exists>sub row.
      getitem sf adjust m ex =
        Inr \<lparr>item_fid = [sub],
             item_targets = \<lparr>tcols = max_choice_len,
                              trows = [row @ replicate (max_choice_len - length row) (- 1)]\<rparr>,
             item_true = tt, item_cat = cat\<rparr>
    \<and> sub = day_copy ((last (targets ex))\<lparr>ctxs := Some []\<rparr>) 0 ex
    \<and> fe_id sub = 0
    \<and> (if cat = MultiChoice
        then length row = min (num_choices (choices ex)) max_choice_len
           \<and> (\<forall>i < length row. row ! i = (if real i = tt then 1 else 0))
           \<and> (\<forall>k < length row. tt = real k \<longrightarrow>
                 row = replicate k 0 @ 1 # replicate (length row - Suc k) 0)
           \<and> ((\<forall>i < length row. real i \<noteq> tt) \<longrightarrow> row = replicate (length row) 0)
        else row = [tt])"
proof -
  let ?len = "min (num_choices (choices ex)) max_choice_len"
  let ?row = "if cat = BinaryTF \<or> cat = Regression then [tt] else indicator_row ?len tt"
  let ?sub = "day_copy ((last (targets ex))\<lparr>ctxs := Some []\<rparr>) 0 ex"
  let ?st = "\<lparr>fid_examples = [?sub], target_rows = [?row], has_ctxs = False,
            visited = map clear_ctxs (targets ex)\<rparr>"
  have cd: "collect_days sf adjust cat tt ex = Inr ?st"
    by (rule collect_days_no_docs [OF days nodocs])
  have rows: "\<forall>r \<in> set (target_rows ?st). length r \<le> max_choice_len"
    by (rule collect_days_rows [OF cd])
  have fin: "finish_item m cat tt ?st =
     Inr \<lparr>item_fid = [?sub],
          item_targets = \<lparr>tcols = max_choice_len,
                           trows = [?row @ replicate (max_choice_len - length ?row) (- 1)]\<rparr>,
          item_true = tt, item_cat = cat\<rparr>"
    using finish_item_result [of ?st m cat tt] rows m
    by (simp add: last_slice_single)
  have shape: "if cat = MultiChoice
        then length ?row = ?len \<and> (\<forall>i < length ?row. ?row ! i = (if real i = tt then 1 else 0))
           \<and> (\<forall>k < length ?row. tt = real k \<longrightarrow>
                 ?row = replicate k 0 @ 1 # replicate (length ?row - Suc k) 0)
           \<and> ((\<forall>i < length ?row. real i \<noteq> tt) \<longrightarrow> ?row = replicate (length ?row) 0)
        else ?row = [tt]"
  proof (cases "cat = MultiChoice")
    case True
    have "length (indicator_row ?len tt) = ?len" by (rule indicator_row_length)
    moreover have "\<forall>i < ?len. indicator_row ?len tt ! i = (if real i = tt then 1 else 0)"
      by (simp add: indicator_row_def)
    moreover have "\<forall>k < ?len. tt = real k \<longrightarrow>
        indicator_row ?len tt = replicate k 0 @ 1 # replicate (?len - Suc k) 0"
      using indicator_row_inside [of _ ?len] by blast
    moreover have "(\<forall>i < ?len. real i \<noteq> tt) \<longrightarrow> indicator_row ?len tt = replicate ?len 0"
      using indicator_row_outside [of ?len tt] by blast
    ultimately show ?thesis using True by simp
  next
    case False
    then show ?thesis by (cases cat) simp_all
  qed
  have "getitem sf adjust m ex =
     Inr \<lparr>item_fid = [?sub],
          item_targets = \<lparr>tcols = max_choice_len,
                           trows = [?row @ replicate (max_choice_len - length ?row) (- 1)]\<rparr>,
          item_true = tt, item_cat = cat\<rparr>"
    by (simp add: getitem_def cat tt cd fin)
  moreover have "fe_id ?sub = 0" by (simp add: day_copy_def)
  ultimately show ?thesis using shape by blast
qed

lemma no_docs_category: "get_category no_docs_example = Inr MultiChoice"
  by (simp add: get_category_def no_docs_example_def tf_choices_def)

lemma no_docs_true_target: "true_target sf MultiChoice no_docs_example = Inr 1"
  by (simp add: true_target_def no_docs_example_def)

theorem fallback_example_witness:
  "targets no_docs_example \<noteq> []
   \<and> list_all no_ctxs (targets no_docs_example)
   \<and> getitem sample_float True 128 no_docs_example =
       Inr \<lparr>item_fid = [\<lparr>fe_id = 0, fe_date = ''d1'', fe_ctxs = Some [],
                          fe_question = ''Which option?'', fe_answers = [PStr ''B''],
                          fe_choices = ChoiceList [''red'', ''green'', ''blue'']\<rparr>],
            item_targets = \<lparr>tcols = 12,
               trows = [[0, 1, 0, -1, -1, -1, -1, -1, -1, -1, -1, -1]]\<rparr>,
            item_true = 1, item_cat = MultiChoice\<rparr>"
proof -
  have days: "targets no_docs_example \<noteq> []"
    by (simp add: no_docs_example_def)
  have nodocs: "\<forall>d \<in> set (targets no_docs_example). no_ctxs d"
    by (simp add: no_docs_example_def no_ctxs_def)
  have m: "(0::int) \<le> 128" by simp
  from fallback_example [OF days nodocs no_docs_category no_docs_true_target m,
      where adjust = True and sf = sample_float]
  obtain sub row where
    g: "getitem sample_float True 128 no_docs_example =
        Inr \<lparr>item_fid = [sub],
             item_targets = \<lparr>tcols = max_choice_len,
                              trows = [row @ replicate (max_choice_len - length row) (- 1)]\<rparr>,
             item_true = 1, item_cat = MultiChoice\<rparr>"
    and sub: "sub = day_copy ((last (targets no_docs_example))\<lparr>ctxs := Some []\<rparr>) 0 no_docs_example"
    and len: "length row = min (num_choices (choices no_docs_example)) max_choice_len"
    and ent: "\<forall>i < length row. row ! i = (if real i = 1 then 1 else 0)"
    by auto
  from len have l3: "length row = 3"
    by (simp add: no_docs_example_def num_choices_def max_choice_len_def)
  with ent have "row ! 0 = 0" "row ! 1 = 1" "row ! 2 = 0" by simp_all
  with l3 have row: "row = [0, 1, 0]"
    by (cases row; cases "tl row"; cases "tl (tl row)") auto
  from g sub row days nodocs show ?thesis
    by (simp add: day_copy_def no_docs_example_def max_choice_len_def numeral_eq_Suc
        list_all_iff)
qed

section \<open>Per-day targets\<close>

lemma sum_list_divide: "sum_list (map (\<lambda>x. x / c) xs) = sum_list xs / (c::real)"
  by (induction xs) (simp_all add: add_divide_distrib)

lemma normalize_row_ok:
  "sum_list xs \<noteq> 0 \<Longrightarrow> normalize_row xs = Inr (map (\<lambda>x. x / sum_list xs) xs)"
  by (simp add: normalize_row_def Let_def)

lemma normalize_row_sum:
  "sum_list xs \<noteq> 0 \<Longrightarrow> sum_list (map (\<lambda>x. x / sum_list xs) xs) = (1::real)"
  using sum_list_divide [of "sum_list xs" xs] by simp

lemma adjust_row_nth:
  "i < length t \<Longrightarrow> adjust_row tt t ! i = (if real i = tt then (t ! i + 1) / 2 else t ! i / 2)"
  by (simp add: adjust_row_def)

lemma day_target_scalar:
  assumes "cat \<noteq> MultiChoice" and "py_float sf v = Inr t"
  shows "day_target sf adjust cat len tt v = Inr [if adjust then (t + tt) / 2 else t]"
  using assms by (cases cat) (simp_all add: day_target_def)

lemma day_target_choice:
  assumes "map_err (py_float sf) (take len scores) = Inr xs" and "sum_list xs \<noteq> 0"
  shows "day_target sf adjust MultiChoice len tt (PList scores) =
         Inr (if adjust then adjust_row tt (map (\<lambda>x. x / sum_list xs) xs)
              else map (\<lambda>x. x / sum_list xs) xs)"
  using assms by (simp add: day_target_def slice_prefix_def normalize_row_ok)

lemma choice_category: "get_category choice_example = Inr MultiChoice"
  by (simp add: get_category_def choice_example_def tf_choices_def)

lemma choice_true_target: "true_target sf MultiChoice choice_example = Inr 1"
  by (simp add: true_target_def choice_example_def)

lemma choice_collect:
  "collect_days sf False MultiChoice 1 choice_example =
   Inr \<lparr>fid_examples = [day_copy (hd (targets choice_example)) 0 choice_example],
        target_rows = [[1/4, 1/2, 1/4]], has_ctxs = True,
        visited = targets choice_example\<rparr>"
  by (simp add: collect_days_def choice_example_def init_state_def no_ctxs_def day_target_def
      py_float_def fallback_def sample_doc_def slice_prefix_def normalize_row_def
      num_choices_def max_choice_len_def)

lemma choice_getitem:
  "getitem sf False 128 choice_example =
   Inr \<lparr>item_fid = [day_copy (hd (targets choice_example)) 0 choice_example],
        item_targets = \<lparr>tcols = 12,
           trows = [[1/4, 1/2, 1/4, -1, -1, -1, -1, -1, -1, -1, -1, -1]]\<rparr>,
        item_true = 1, item_cat = MultiChoice\<rparr>"
  by (simp add: getitem_def choice_category choice_true_target choice_collect finish_item_def
      last_slice_def pad_sequence1_def max_len_def fill_targets_pad_def max_choice_len_def
      numeral_eq_Suc)

text \<open>
  C7. The target row of a day with documents follows the stated formulas. For BinaryTF and
  Regression it is the one-element row \<open>[t]\<close>, or \<open>[(t + true_label) / 2]\<close> when
  \<^verbatim>\<open>adjust_targets\<close> is set. For MultiChoice the first \<open>len\<close> raw scores (\<open>len\<close> is
  \<^verbatim>\<open>min(num_choices, max_choice_len)\<close>) are divided by their sum, so that the row sums to 1;
  when \<^verbatim>\<open>adjust_targets\<close> is set every entry is halved, except the entry of the true choice,
  which becomes \<open>(entry + 1) / 2\<close>. The division needs a sum that is not zero. A MultiChoice
  record with three choices, answer \<^verbatim>\<open>"B"\<close> and one day with raw scores 1, 2, 1 yields the day
  target 0.25, 0.5, 0.25, category 1 and true label 1.
\<close>

theorem day_target_formulas:
  "(\<forall>cat v t. cat \<noteq> MultiChoice \<longrightarrow> py_float sf v = Inr t \<longrightarrow>
       day_target sf adjust cat len tt v = Inr [if adjust then (t + tt) / 2 else t])
   \<and> (\<forall>scores xs. map_err (py_float sf) (take len scores) = Inr xs \<longrightarrow> sum_list xs \<noteq> 0 \<longrightarrow>
        (\<exists>row. day_target sf False MultiChoice len tt (PList scores) = Inr row
            \<and> length row = min (length scores) len
            \<and> (\<forall>i < length row. row ! i = xs ! i / sum_list xs)
            \<and> sum_list row = 1
            \<and> (\<exists>row'. day_target sf True MultiChoice len tt (PList scores) = Inr row'
                  \<and> length row' = length row
                  \<and> (\<forall>i < length row. row' ! i =
                         (if real i = tt then (row ! i + 1) / 2 else row ! i / 2)))))
   \<and> (\<exists>st. collect_days sf False MultiChoice 1 choice_example = Inr st
          \<and> target_rows st = [[1/4, 1/2, 1/4]])
   \<and> (\<exists>out. getitem sf False 128 choice_example = Inr out
          \<and> cat_id (item_cat out) = 1 \<and> item_true out = 1)"
proof (intro conjI allI impI)
  fix cat v t
  assume "cat \<noteq> MultiChoice" and "py_float sf v = Inr t"
  then show "day_target sf adjust cat len tt v = Inr [if adjust then (t + tt) / 2 else t]"
    by (rule day_target_scalar)
next
  fix scores xs
  assume xs: "map_err (py_float sf) (take len scores) = Inr xs" and total: "sum_list xs \<noteq> 0"
  let ?row = "map (\<lambda>x. x / sum_list xs) xs"
  have len: "length ?row = min (length scores) len"
    using map_err_length [OF xs] by simp
  have a: "day_target sf False MultiChoice len tt (PList scores) = Inr ?row"
    using day_target_choice [OF xs total, of False tt] by simp
  have b: "day_target sf True MultiChoice len tt (PList scores) = Inr (adjust_row tt ?row)"
    using day_target_choice [OF xs total, of True tt] by simp
  have c: "\<forall>i < length ?row. adjust_row tt ?row ! i =
             (if real i = tt then (?row ! i + 1) / 2 else ?row ! i / 2)"
    using adjust_row_nth [of _ ?row tt] by blast
  have d: "\<forall>i < length ?row. ?row ! i = xs ! i / sum_list xs" by simp
  have e: "sum_list ?row = 1" by (rule normalize_row_sum [OF total])
  from b c have "\<exists>row'. day_target sf True MultiChoice len tt (PList scores) = Inr row'
                  \<and> length row' = length ?row
                  \<and> (\<forall>i < length ?row. row' ! i =
                         (if real i = tt then (?row ! i + 1) / 2 else ?row ! i / 2))"
    by (simp add: adjust_row_length)
  with a len d e
  show "\<exists>row. day_target sf False MultiChoice len tt (PList scores) = Inr row
            \<and> length row = min (length scores) len
            \<and> (\<forall>i < length row. row ! i = xs ! i / sum_list xs)
            \<and> sum_list row = 1
            \<and> (\<exists>row'. day_target sf True MultiChoice len tt (PList scores) = Inr row'
                  \<and> length row' = length row
                  \<and> (\<forall>i < length row. row' ! i =
                         (if real i = tt then (row ! i + 1) / 2 else row ! i / 2)))"
    by blast
next
  show "\<exists>st. collect_days sf False MultiChoice 1 choice_example = Inr st
          \<and> target_rows st = [[1/4, 1/2, 1/4]]"
    by (simp add: choice_collect)
next
  show "\<exists>out. getitem sf False 128 choice_example = Inr out
          \<and> cat_id (item_cat out) = 1 \<and> item_true out = 1"
    by (simp add: choice_getitem)
qed

theorem day_target_formulas_witness:
  "BinaryTF \<noteq> MultiChoice
   \<and> py_float sample_float (PStr ''0.6'') = Inr (3/5)
   \<and> day_target sample_float True BinaryTF 3 1 (PStr ''0.6'') = Inr [4/5]
   \<and> map_err (py_float sample_float) (take 3 [PNum 1, PNum 2, PNum 1]) = Inr [1, 2, 1]
   \<and> sum_list [1, 2, 1 :: real] \<noteq> 0
   \<and> (\<exists>row. day_target sample_float False MultiChoice 3 1 (PList [PNum 1, PNum 2, PNum 1]) = Inr row
          \<and> length row = 3 \<and> sum_list row = 1)"
proof -
  have f: "py_float sample_float (PStr ''0.6'') = Inr (3/5)"
    by (simp add: py_float_def sample_float_def)
  have x: "map_err (py_float sample_float) (take 3 [PNum 1, PNum 2, PNum 1]) = Inr [1, 2, 1]"
    by (simp add: py_float_def)
  have s: "sum_list [1, 2, 1 :: real] \<noteq> 0" by simp
  note inst = day_target_formulas [of sample_float True 3 1]
  have "BinaryTF \<noteq> MultiChoice" by simp
  with inst [THEN conjunct1, rule_format, of BinaryTF "PStr ''0.6''" "3/5"] f
  have a: "day_target sample_float True BinaryTF 3 1 (PStr ''0.6'') = Inr [4/5]"
    by simp
  from inst [THEN conjunct2, THEN conjunct1, rule_format, OF x s]
  have "\<exists>row. day_target sample_float False MultiChoice 3 1 (PList [PNum 1, PNum 2, PNum 1]) = Inr row
          \<and> length row = min (length [PNum 1, PNum 2, PNum 1]) 3 \<and> sum_list row = 1"
    by blast
  with f a x s show ?thesis by (simp add: numeral_3_eq_3)
qed

subsection \<open>The sum of a multiple-choice row\<close>

lemma sum_list_adjust_row_inside:
  assumes "k < length t"
  shows "sum_list (adjust_row (real k) t) = (sum_list t + 1) / 2"
proof -
  have "adjust_row (real k) t = map (\<lambda>i. t ! i / 2 + (if i = k then 1 / 2 else 0)) [0..<length t]"
    by (simp add: adjust_row_def add_divide_distrib)
  then have "sum_list (adjust_row (real k) t)
      = (\<Sum>i = 0..<length t. t ! i / 2 + (if i = k then 1 / 2 else 0))"
    by (simp add: interv_sum_list_conv_sum_set_nat)
  also have "\<dots> = (\<Sum>i = 0..<length t. t ! i / 2) + (\<Sum>i = 0..<length t. if i = k then 1 / 2 else 0)"
    by (rule sum.distrib)
  also have "(\<Sum>i = 0..<length t. t ! i / 2) = sum_list t / 2"
    by (simp add: sum_list_sum_nth sum_divide_distrib)
  also have "(\<Sum>i = 0..<length t. if i = k then 1 / 2 else 0) = (1 / 2 :: real)"
    using assms by simp
  finally show ?thesis by (simp add: add_divide_distrib)
qed

lemma sum_list_adjust_row_outside:
  assumes "\<forall>i < length t. real i \<noteq> tt"
  shows "sum_list (adjust_row tt t) = sum_list t / 2"
proof -
  from assms have "adjust_row tt t = map (\<lambda>x. x / 2) t"
    by (auto simp: adjust_row_def intro: nth_equalityI)
  then show ?thesis by (simp add: sum_list_divide)
qed

lemma sum_list_pos: "xs \<noteq> [] \<Longrightarrow> \<forall>x \<in> set xs. 0 < x \<Longrightarrow> 0 < sum_list (xs :: real list)"
  by (induction xs) (auto intro: add_pos_nonneg sum_list_nonneg less_imp_le)

text \<open>
  In exact arithmetic a multiple-choice row with positive scores sums to 1, with
  \<^verbatim>\<open>adjust_targets\<close> set provided the true choice is a position of the row.
\<close>

lemma choice_row_sum_exact:
  assumes xs: "map_err (py_float sf) (take len scores) = Inr xs"
    and ne: "xs \<noteq> []"
    and pos: "\<forall>x \<in> set xs. 0 < x"
    and inside: "adjust \<longrightarrow> (\<exists>k < length xs. tt = real k)"
  shows "\<exists>row. day_target sf adjust MultiChoice len tt (PList scores) = Inr row \<and> sum_list row = 1"
proof -
  from sum_list_pos [OF ne pos] have total: "sum_list xs \<noteq> 0" by simp
  let ?row = "map (\<lambda>x. x / sum_list xs) xs"
  have one: "sum_list ?row = 1" by (rule normalize_row_sum [OF total])
  show ?thesis
  proof (cases adjust)
    case False
    with day_target_choice [OF xs total, of adjust tt] one show ?thesis by simp
  next
    case True
    with inside obtain k where k: "k < length ?row" and tt: "tt = real k" by auto
    from sum_list_adjust_row_inside [OF k] one tt
    have "sum_list (adjust_row tt ?row) = 1" by simp
    with True day_target_choice [OF xs total, of adjust tt] show ?thesis by simp
  qed
qed

section \<open>Two scenarios that differ from their description\<close>

lemma map_err_replicate: "map_err (py_float sf) (replicate n (PNum c)) = Inr (replicate n c)"
  by (induction n) (simp_all add: py_float_def)

lemma many_category: "get_category many_choice_example = Inr MultiChoice"
  by (simp add: get_category_def many_choice_example_def tf_choices_def)

lemma many_true_target: "true_target sf MultiChoice many_choice_example = Inr 12"
  by (simp add: true_target_def many_choice_example_def)

lemma many_day_target:
  "day_target sf True MultiChoice 12 12 (PList (replicate 13 (PNum 1))) =
   Inr (adjust_row 12 (replicate 12 (1 / 12)))"
proof -
  have xs: "map_err (py_float sf) (take 12 (replicate 13 (PNum 1))) = Inr (replicate 12 1)"
    by (simp add: map_err_replicate)
  have total: "sum_list (replicate 12 (1::real)) \<noteq> 0"
    by (simp add: sum_list_replicate)
  from day_target_choice [OF xs total, of True 12] show ?thesis
    by (simp add: sum_list_replicate)
qed

lemma many_row_sum: "sum_list (adjust_row 12 (replicate 12 (1 / 12))) = 1 / 2"
proof -
  have "\<forall>i < length (replicate 12 (1 / 12 :: real)). real i \<noteq> 12" by simp
  from sum_list_adjust_row_outside [OF this] show ?thesis
    by (simp add: sum_list_replicate)
qed

lemma many_collect:
  "collect_days sf True MultiChoice 12 many_choice_example =
   Inr \<lparr>fid_examples = [day_copy (hd (targets many_choice_example)) 0 many_choice_example],
        target_rows = [adjust_row 12 (replicate 12 (1 / 12))], has_ctxs = True,
        visited = targets many_choice_example\<rparr>"
proof -
  have len: "min (num_choices (choices many_choice_example)) max_choice_len = 12"
    by (simp add: many_choice_example_def num_choices_def max_choice_len_def)
  have days: "targets many_choice_example =
      [\<lparr>date = ''d0'', target = PList (replicate 13 (PNum 1)), ctxs = Some [sample_doc]\<rparr>]"
    by (simp add: many_choice_example_def)
  have loop: "days_loop sf True MultiChoice 12 12 many_choice_example 0
                (targets many_choice_example) init_state =
      Inr \<lparr>fid_examples = [day_copy (hd (targets many_choice_example)) 0 many_choice_example],
           target_rows = [adjust_row 12 (replicate 12 (1 / 12))], has_ctxs = True,
           visited = targets many_choice_example\<rparr>"
    unfolding days
    by (simp add: init_state_def no_ctxs_def many_day_target)
  show ?thesis
    unfolding collect_days_def len Let_def loop
    by (simp add: fallback_def)
qed

text \<open>
  C10 as stated fails: a question with thirteen options whose answer is the thirteenth
  (\<^verbatim>\<open>'M'\<close>, index 12) is a MultiChoice record; with \<^verbatim>\<open>adjust_targets\<close> set, its day with
  thirteen positive scores yields a row of twelve entries that sums to one half, because the
  true choice lies beyond the first \<^verbatim>\<open>max_choice_len\<close> positions.
\<close>

theorem choice_row_sum_counterexample:
  "get_category many_choice_example = Inr MultiChoice
   \<and> true_target sample_float MultiChoice many_choice_example = Inr 12
   \<and> target (hd (targets many_choice_example)) = PList (replicate 13 (PNum 1))
   \<and> (\<exists>st row. collect_days sample_float True MultiChoice 12 many_choice_example = Inr st
          \<and> target_rows st = [row] \<and> length row = 12 \<and> sum_list row = 1 / 2
          \<and> sum_list row \<noteq> 1)"
proof -
  have "target (hd (targets many_choice_example)) = PList (replicate 13 (PNum 1))"
    by (simp add: many_choice_example_def)
  moreover have "length (adjust_row 12 (replicate 12 (1 / 12))) = 12"
    by (simp add: adjust_row_length)
  ultimately show ?thesis
    using many_category many_true_target [of sample_float] many_collect [of sample_float]
      many_row_sum
    by simp
qed

text \<open>
  C8 as stated fails: the returned target tensor has \<^verbatim>\<open>max_choice_len\<close> columns, not one.
\<close>

theorem binary_scenario_counterexample:
  "\<exists>out. getitem sample_float False 128 binary_example = Inr out
      \<and> trows (item_targets out) \<noteq> [[3/5], [7/10], [9/10]]
      \<and> tcols (item_targets out) = 12"
  by (simp add: binary_getitem)

text \<open>
  C8, as amended. For the BinaryTF record with answer \<^verbatim>\<open>"yes"\<close>, three days of one document
  each, crowd targets 0.6, 0.7 and 0.9 and \<^verbatim>\<open>adjust_targets\<close> unset, the example transformer
  returns a target tensor of three rows and twelve columns whose first column is 0.6, 0.7,
  0.9 and whose other entries are the padding value \<open>- 1\<close>, category 0 and true label 1.
\<close>

theorem binary_scenario:
  "\<exists>out. getitem sample_float False 128 binary_example = Inr out
      \<and> item_targets out =
          \<lparr>tcols = 12,
           trows = [[3/5, -1, -1, -1, -1, -1, -1, -1, -1, -1, -1, -1],
                    [7/10, -1, -1, -1, -1, -1, -1, -1, -1, -1, -1, -1],
                    [9/10, -1, -1, -1, -1, -1, -1, -1, -1, -1, -1, -1]]\<rparr>
      \<and> map (take 1) (trows (item_targets out)) = [[3/5], [7/10], [9/10]]
      \<and> length (item_fid out) = 3
      \<and> cat_id (item_cat out) = 0 \<and> item_true out = 1"
  by (simp add: binary_getitem)

section \<open>Properties of the collator\<close>

lemma pad_sequence2_Inr:
  assumes "pad_sequence2 v ts = Inr p"
  shows "ts \<noteq> []"
    and "t3_len p = max_len (map trows ts)"
    and "t3_cols p = tcols (hd ts)"
    and "t3_seqs p = map (\<lambda>t. trows t @ replicate (t3_len p - length (trows t))
                                     (replicate (t3_cols p) v)) ts"
  using assms
  by (auto simp: pad_sequence2_def Let_def split: list.splits if_splits)

lemma pad_sequence2_length:
  assumes "pad_sequence2 v ts = Inr p" and "i < length ts"
  shows "length (t3_seqs p ! i) = t3_len p" and "length (trows (ts ! i)) \<le> t3_len p"
proof -
  from assms(2) have "trows (ts ! i) \<in> set (map trows ts)" by simp
  then have "length (trows (ts ! i)) \<le> max_len (map trows ts)" by (rule max_len_ge)
  then show le: "length (trows (ts ! i)) \<le> t3_len p"
    by (simp add: pad_sequence2_Inr(2) [OF assms(1)])
  from assms(2) le show "length (t3_seqs p ! i) = t3_len p"
    by (simp add: pad_sequence2_Inr(4) [OF assms(1)])
qed

lemma pad_sequence2_nth:
  assumes "pad_sequence2 v ts = Inr p" and "i < length ts" and "d < t3_len p"
  shows "t3_seqs p ! i ! d =
     (if d < length (trows (ts ! i)) then trows (ts ! i) ! d else replicate (t3_cols p) v)"
  using assms
  by (simp add: pad_sequence2_Inr(4) [OF assms(1)] nth_append)

lemma zero_from_nth:
  "d < m \<Longrightarrow> zero_from n (replicate m True) ! d = (d < n)"
  by (simp add: zero_from_def nth_append)

lemma zero_from_length: "length (zero_from n row) = length row"
  by (simp add: zero_from_def)

lemma collate_Inr:
  assumes "forecaster_collate_fn examples labels true_labels cats = Inr b"
  shows "pad_sequence2 0 examples = Inr (b_examples b)"
    and "pad_sequence2 (- 2) labels = Inr (b_labels b)"
    and "b_mask b = map2 zero_from (map (\<lambda>l. length (trows l)) labels)
                      (map (\<lambda>l. replicate (length l) True) (t3_seqs (b_labels b)))"
    and "b_seq_ends b = map (\<lambda>l. int (length (trows l)) - 1) labels"
    and "b_true_labels b = true_labels" and "b_cats b = cats"
    and "length (t3_seqs (b_examples b)) = length (b_mask b)"
    and "t3_len (b_examples b) = t3_len (b_labels b)"
    and "t3_cols (b_labels b) \<noteq> 0"
  using assms
  by (auto simp: forecaster_collate_fn_def Let_def split: sum.splits if_splits)

lemma collate_mask_row:
  assumes c: "forecaster_collate_fn examples labels true_labels cats = Inr b"
    and i: "i < length labels"
  shows "b_mask b ! i = zero_from (length (trows (labels ! i))) (replicate (t3_len (b_labels b)) True)"
proof -
  note p = collate_Inr(2) [OF c]
  have len: "length (t3_seqs (b_labels b)) = length labels"
    by (simp add: pad_sequence2_Inr(4) [OF p])
  from i len pad_sequence2_length(1) [OF p i] show ?thesis
    by (simp add: collate_Inr(3) [OF c])
qed

lemma collate_mask_length:
  assumes c: "forecaster_collate_fn examples labels true_labels cats = Inr b"
  shows "length (b_mask b) = length labels"
  by (simp add: collate_Inr(3) [OF c] pad_sequence2_Inr(4) [OF collate_Inr(2) [OF c]])

text \<open>
  C5. In every collated batch \<open>seq_ends[i]\<close> is the number of rows of the \<open>i\<close>-th target tensor
  minus 1, and \<open>mask[i, d]\<close> holds exactly when \<open>d \<le> seq_ends[i]\<close>. Collating two examples
  with 2 and 4 days yields the mask \<open>[[T,T,F,F],[T,T,T,T]]\<close> and \<open>seq_ends = [1, 3]\<close>.
\<close>

theorem collate_mask:
  "(\<forall>b. forecaster_collate_fn examples labels true_labels cats = Inr b \<longrightarrow>
       length (b_mask b) = length labels \<and> length (b_seq_ends b) = length labels
     \<and> (\<forall>i < length labels.
            b_seq_ends b ! i = int (length (trows (labels ! i))) - 1
          \<and> length (b_mask b ! i) = t3_len (b_labels b)
          \<and> (\<forall>d < t3_len (b_labels b). b_mask b ! i ! d = (int d \<le> b_seq_ends b ! i))))
   \<and> (\<forall>x1 x2 l1 l2 b. length (trows l1) = 2 \<longrightarrow> length (trows l2) = 4 \<longrightarrow>
          forecaster_collate_fn [x1, x2] [l1, l2] true_labels cats = Inr b \<longrightarrow>
          b_mask b = [[True, True, False, False], [True, True, True, True]]
        \<and> b_seq_ends b = [1, 3])"
proof (intro conjI allI impI)
  fix b
  assume c: "forecaster_collate_fn examples labels true_labels cats = Inr b"
  show "length (b_mask b) = length labels" by (rule collate_mask_length [OF c])
  show "length (b_seq_ends b) = length labels" by (simp add: collate_Inr(4) [OF c])
  fix i
  assume i: "i < length labels"
  show "b_seq_ends b ! i = int (length (trows (labels ! i))) - 1"
    using i by (simp add: collate_Inr(4) [OF c])
  show "length (b_mask b ! i) = t3_len (b_labels b)"
    by (simp add: collate_mask_row [OF c i] zero_from_length)
  fix d
  assume d: "d < t3_len (b_labels b)"
  have "b_mask b ! i ! d = (d < length (trows (labels ! i)))"
    by (simp add: collate_mask_row [OF c i] zero_from_nth [OF d])
  also have "\<dots> = (int d \<le> b_seq_ends b ! i)"
    using i by (auto simp: collate_Inr(4) [OF c])
  finally show "b_mask b ! i ! d = (int d \<le> b_seq_ends b ! i)" .
next
  fix x1 x2 l1 l2 b
  assume l1: "length (trows l1) = 2" and l2: "length (trows l2) = 4"
    and c: "forecaster_collate_fn [x1, x2] [l1, l2] true_labels cats = Inr b"
  note p = collate_Inr(2) [OF c]
  from l1 l2 have m: "t3_len (b_labels b) = 4"
    by (simp add: pad_sequence2_Inr(2) [OF p] max_len_def)
  have r0: "b_mask b ! 0 = zero_from 2 (replicate 4 True)"
    using collate_mask_row [OF c, of 0] l1 m by simp
  have r1: "b_mask b ! 1 = zero_from 4 (replicate 4 True)"
    using collate_mask_row [OF c, of 1] l2 m by simp
  have "length (b_mask b) = 2" using collate_mask_length [OF c] by simp
  then have "b_mask b = [b_mask b ! 0, b_mask b ! 1]"
    by (cases "b_mask b"; cases "tl (b_mask b)") auto
  with r0 r1 show "b_mask b = [[True, True, False, False], [True, True, True, True]]"
    by (simp add: zero_from_def numeral_eq_Suc)
  from l1 l2 show "b_seq_ends b = [1, 3]"
    by (simp add: collate_Inr(4) [OF c])
qed

lemma collate_two_four:
  "forecaster_collate_fn [zeros2 2 8, zeros2 4 8] [zeros2 2 12, zeros2 4 12] [1, 0] [0, 1] =
   Inr \<lparr>b_examples = \<lparr>t3_len = 4, t3_cols = 8,
           t3_seqs = [replicate 4 (replicate 8 0), replicate 4 (replicate 8 0)]\<rparr>,
        b_mask = [[True, True, False, False], [True, True, True, True]],
        b_labels = \<lparr>t3_len = 4, t3_cols = 12,
           t3_seqs = [replicate 2 (replicate 12 0) @ replicate 2 (replicate 12 (- 2)),
                      replicate 4 (replicate 12 0)]\<rparr>,
        b_true_labels = [1, 0], b_cats = [0, 1], b_seq_ends = [1, 3]\<rparr>"
  by (simp add: forecaster_collate_fn_def pad_sequence2_def zeros2_def max_len_def Let_def
      zero_from_def replicate_add [symmetric] numeral_eq_Suc)

theorem collate_mask_witness:
  "length (trows (zeros2 2 12)) = 2 \<and> length (trows (zeros2 4 12)) = 4
   \<and> (\<exists>b. forecaster_collate_fn [zeros2 2 8, zeros2 4 8] [zeros2 2 12, zeros2 4 12] [1, 0] [0, 1]
            = Inr b
          \<and> b_mask b = [[True, True, False, False], [True, True, True, True]]
          \<and> b_seq_ends b = [1, 3])"
proof -
  have l1: "length (trows (zeros2 2 12)) = 2" and l2: "length (trows (zeros2 4 12)) = 4"
    by (simp_all add: zeros2_def)
  obtain b where
    c: "forecaster_collate_fn [zeros2 2 8, zeros2 4 8] [zeros2 2 12, zeros2 4 12] [1, 0] [0, 1]
          = Inr b"
    using collate_two_four by blast
  from collate_mask [of "[zeros2 2 8, zeros2 4 8]" "[zeros2 2 12, zeros2 4 12]" "[1, 0]" "[0, 1]",
      THEN conjunct2, rule_format, OF l1 l2 c] l1 l2 c
  show ?thesis by blast
qed

lemma getitem_Inr:
  assumes "getitem sf adjust m ex = Inr out"
  obtains cat tt st where "get_category ex = Inr cat" and "true_target sf cat ex = Inr tt"
    and "collect_days sf adjust cat tt ex = Inr st" and "finish_item m cat tt st = Inr out"
  using assms by (auto simp: getitem_def split: sum.splits)

lemma getitem_padded:
  assumes g: "getitem sf adjust m ex = Inr out"
  obtains st where "collect_days sf adjust (item_cat out) (item_true out) ex = Inr st"
    and "\<forall>r \<in> set (target_rows st). length r \<le> max_choice_len"
    and "item_fid out = last_slice m (fid_examples st)"
    and "item_targets out =
           \<lparr>tcols = max_choice_len,
            trows = map (\<lambda>r. r @ replicate (max_choice_len - length r) (- 1))
                      (last_slice m (target_rows st))\<rparr>"
proof -
  from g obtain cat tt st where cd: "collect_days sf adjust cat tt ex = Inr st"
    and fin: "finish_item m cat tt st = Inr out"
    by (rule getitem_Inr)
  note rows = collect_days_rows [OF cd]
  note len = collect_days_lengths [OF cd]
  have ne: "last_slice m (target_rows st) \<noteq> []"
  proof
    assume "last_slice m (target_rows st) = []"
    from finish_item_errors [OF len this, of cat tt] fin show False by simp
  qed
  from finish_item_result [OF rows len ne, of cat tt] fin
  have out: "out = \<lparr>item_fid = last_slice m (fid_examples st),
          item_targets = \<lparr>tcols = max_choice_len,
             trows = map (\<lambda>r. r @ replicate (max_choice_len - length r) (- 1))
                       (last_slice m (target_rows st))\<rparr>,
          item_true = tt, item_cat = cat\<rparr>"
    by simp
  show thesis
  proof (rule that [of st])
    from cd out show "collect_days sf adjust (item_cat out) (item_true out) ex = Inr st" by simp
    show "\<forall>r \<in> set (target_rows st). length r \<le> max_choice_len" by (rule rows)
    from out show "item_fid out = last_slice m (fid_examples st)" by simp
    from out show "item_targets out =
           \<lparr>tcols = max_choice_len,
            trows = map (\<lambda>r. r @ replicate (max_choice_len - length r) (- 1))
                      (last_slice m (target_rows st))\<rparr>" by simp
  qed
qed

text \<open>
  C4. Two sentinels at two levels. The target tensor of an example has
  \<^verbatim>\<open>max_choice_len\<close> columns and one row per retained day; each row is an original target row
  followed by entries \<open>- 1\<close>. In a collated batch the target rows of the \<open>i\<close>-th example at day
  indices beyond \<open>seq_ends[i]\<close> consist of \<open>- 2\<close> only, the rows up to \<open>seq_ends[i]\<close> are the
  example's own, and the hidden-vector sequences are extended on the right by rows of zeros.
\<close>

theorem padding_sentinels:
  "(\<forall>out. getitem sf adjust m ex = Inr out \<longrightarrow>
       tcols (item_targets out) = max_choice_len
     \<and> length (trows (item_targets out)) = length (item_fid out)
     \<and> (\<exists>st. collect_days sf adjust (item_cat out) (item_true out) ex = Inr st
          \<and> length (trows (item_targets out)) = length (last_slice m (target_rows st))
          \<and> (\<forall>j < length (last_slice m (target_rows st)).
                length (last_slice m (target_rows st) ! j) \<le> max_choice_len
              \<and> length (trows (item_targets out) ! j) = max_choice_len
              \<and> take (length (last_slice m (target_rows st) ! j)) (trows (item_targets out) ! j)
                   = last_slice m (target_rows st) ! j
              \<and> (\<forall>k. length (last_slice m (target_rows st) ! j) \<le> k \<and> k < max_choice_len \<longrightarrow>
                     trows (item_targets out) ! j ! k = - 1))))
   \<and> (\<forall>b. forecaster_collate_fn examples labels true_labels cats = Inr b \<longrightarrow>
         (\<forall>i < length labels. \<forall>d < t3_len (b_labels b).
             (b_seq_ends b ! i < int d \<longrightarrow>
                t3_seqs (b_labels b) ! i ! d = replicate (t3_cols (b_labels b)) (- 2))
           \<and> (int d \<le> b_seq_ends b ! i \<longrightarrow>
                t3_seqs (b_labels b) ! i ! d = trows (labels ! i) ! d))
       \<and> (\<forall>i < length examples. \<forall>d < t3_len (b_examples b).
             (length (trows (examples ! i)) \<le> d \<longrightarrow>
                t3_seqs (b_examples b) ! i ! d = replicate (t3_cols (b_examples b)) 0)
           \<and> (d < length (trows (examples ! i)) \<longrightarrow>
                t3_seqs (b_examples b) ! i ! d = trows (examples ! i) ! d)))"
proof (intro conjI allI impI)
  fix out
  assume g: "getitem sf adjust m ex = Inr out"
  from g obtain st where cd: "collect_days sf adjust (item_cat out) (item_true out) ex = Inr st"
    and rows: "\<forall>r \<in> set (target_rows st). length r \<le> max_choice_len"
    and fid: "item_fid out = last_slice m (fid_examples st)"
    and tg: "item_targets out =
           \<lparr>tcols = max_choice_len,
            trows = map (\<lambda>r. r @ replicate (max_choice_len - length r) (- 1))
                      (last_slice m (target_rows st))\<rparr>"
    by (rule getitem_padded)
  let ?rs = "last_slice m (target_rows st)"
  from tg show "tcols (item_targets out) = max_choice_len" by simp
  from tg fid length_last_slice_eq [OF collect_days_lengths [OF cd], of m]
  show "length (trows (item_targets out)) = length (item_fid out)" by simp
  have each: "length (?rs ! j) \<le> max_choice_len
              \<and> length (trows (item_targets out) ! j) = max_choice_len
              \<and> take (length (?rs ! j)) (trows (item_targets out) ! j) = ?rs ! j
              \<and> (\<forall>k. length (?rs ! j) \<le> k \<and> k < max_choice_len \<longrightarrow>
                     trows (item_targets out) ! j ! k = - 1)" if j: "j < length ?rs" for j
  proof -
    from j have "?rs ! j \<in> set ?rs" by simp
    with set_last_slice [of m "target_rows st"] rows
    have le: "length (?rs ! j) \<le> max_choice_len" by auto
    from j tg have row: "trows (item_targets out) ! j
        = ?rs ! j @ replicate (max_choice_len - length (?rs ! j)) (- 1)"
      by simp
    from le row show ?thesis by (auto simp: nth_append)
  qed
  from tg each cd
  show "\<exists>st. collect_days sf adjust (item_cat out) (item_true out) ex = Inr st
          \<and> length (trows (item_targets out)) = length (last_slice m (target_rows st))
          \<and> (\<forall>j < length (last_slice m (target_rows st)).
                length (last_slice m (target_rows st) ! j) \<le> max_choice_len
              \<and> length (trows (item_targets out) ! j) = max_choice_len
              \<and> take (length (last_slice m (target_rows st) ! j)) (trows (item_targets out) ! j)
                   = last_slice m (target_rows st) ! j
              \<and> (\<forall>k. length (last_slice m (target_rows st) ! j) \<le> k \<and> k < max_choice_len \<longrightarrow>
                     trows (item_targets out) ! j ! k = - 1))"
    by (intro exI [of _ st]) simp
next
  fix b i d
  assume c: "forecaster_collate_fn examples labels true_labels cats = Inr b"
    and i: "i < length labels" and d: "d < t3_len (b_labels b)"
  note p = collate_Inr(2) [OF c]
  from i have se: "b_seq_ends b ! i = int (length (trows (labels ! i))) - 1"
    by (simp add: collate_Inr(4) [OF c])
  {
    assume "b_seq_ends b ! i < int d"
    with se have "\<not> d < length (trows (labels ! i))" by simp
    with pad_sequence2_nth [OF p i d]
    show "t3_seqs (b_labels b) ! i ! d = replicate (t3_cols (b_labels b)) (- 2)" by simp
  }
  {
    assume "int d \<le> b_seq_ends b ! i"
    with se have "d < length (trows (labels ! i))" by simp
    with pad_sequence2_nth [OF p i d]
    show "t3_seqs (b_labels b) ! i ! d = trows (labels ! i) ! d" by simp
  }
next
  fix b i d
  assume c: "forecaster_collate_fn examples labels true_labels cats = Inr b"
    and i: "i < length examples" and d: "d < t3_len (b_examples b)"
  note p = collate_Inr(1) [OF c]
  {
    assume "length (trows (examples ! i)) \<le> d"
    with pad_sequence2_nth [OF p i d]
    show "t3_seqs (b_examples b) ! i ! d = replicate (t3_cols (b_examples b)) 0" by simp
  }
  {
    assume "d < length (trows (examples ! i))"
    with pad_sequence2_nth [OF p i d]
    show "t3_seqs (b_examples b) ! i ! d = trows (examples ! i) ! d" by simp
  }
qed

theorem padding_sentinels_witness:
  "(\<exists>out. getitem sample_float False 128 binary_example = Inr out
       \<and> tcols (item_targets out) = 12
       \<and> length (trows (item_targets out)) = 3
       \<and> trows (item_targets out) ! 0 = 3/5 # replicate 11 (- 1))
   \<and> (\<exists>b. forecaster_collate_fn [zeros2 2 8, zeros2 4 8] [zeros2 2 12, zeros2 4 12] [1, 0] [0, 1]
            = Inr b
       \<and> b_seq_ends b ! 0 = 1
       \<and> t3_seqs (b_labels b) ! 0 ! 2 = replicate 12 (- 2)
       \<and> t3_seqs (b_labels b) ! 0 ! 3 = replicate 12 (- 2)
       \<and> t3_seqs (b_examples b) ! 0 ! 2 = replicate 8 0)"
proof -
  note inst = padding_sentinels [of sample_float False 128 binary_example
      "[zeros2 2 8, zeros2 4 8]" "[zeros2 2 12, zeros2 4 12]" "[1, 0]" "[0, 1]"]
  obtain out where g: "getitem sample_float False 128 binary_example = Inr out"
    and r0: "trows (item_targets out) ! 0 = 3/5 # replicate 11 (- 1)"
    and fid: "length (item_fid out) = 3"
    by (simp add: binary_getitem numeral_eq_Suc)
  from inst [THEN conjunct1, rule_format, OF g] fid
  have a: "tcols (item_targets out) = 12" "length (trows (item_targets out)) = 3"
    by (simp_all add: max_choice_len_def)
  obtain b where
    c: "forecaster_collate_fn [zeros2 2 8, zeros2 4 8] [zeros2 2 12, zeros2 4 12] [1, 0] [0, 1]
          = Inr b"
    and bdef: "b = \<lparr>b_examples = \<lparr>t3_len = 4, t3_cols = 8,
           t3_seqs = [replicate 4 (replicate 8 0), replicate 4 (replicate 8 0)]\<rparr>,
        b_mask = [[True, True, False, False], [True, True, True, True]],
        b_labels = \<lparr>t3_len = 4, t3_cols = 12,
           t3_seqs = [replicate 2 (replicate 12 0) @ replicate 2 (replicate 12 (- 2)),
                      replicate 4 (replicate 12 0)]\<rparr>,
        b_true_labels = [1, 0], b_cats = [0, 1], b_seq_ends = [1, 3]\<rparr>"
    using collate_two_four by blast
  from bdef have se: "b_seq_ends b ! 0 = 1" and m: "t3_len (b_labels b) = 4" "t3_cols (b_labels b) = 12"
    and mx: "t3_len (b_examples b) = 4" "t3_cols (b_examples b) = 8"
    by simp_all
  note lab = inst [THEN conjunct2, rule_format, OF c, THEN conjunct1, rule_format]
  note exs = inst [THEN conjunct2, rule_format, OF c, THEN conjunct2, rule_format]
  from lab [of 0 2, THEN conjunct1] se m
  have l2: "t3_seqs (b_labels b) ! 0 ! 2 = replicate 12 (- 2)" by simp
  from lab [of 0 3, THEN conjunct1] se m
  have l3: "t3_seqs (b_labels b) ! 0 ! 3 = replicate 12 (- 2)" by simp
  from exs [of 0 2, THEN conjunct1] mx
  have e2: "t3_seqs (b_examples b) ! 0 ! 2 = replicate 8 0" by (simp add: zeros2_def)
  from g r0 a c se l2 l3 e2 show ?thesis by blast
qed

section \<open>Gradient flow of the encoder adapter\<close>

declare chunks.simps [simp del]

lemma chunks_concat: "0 < n \<Longrightarrow> concat (chunks n xs) = xs"
proof (induction n xs rule: chunks.induct)
  case (1 n xs)
  show ?case
  proof (cases "xs = []")
    case True
    then show ?thesis by (subst chunks.simps) simp
  next
    case False
    with "1.prems" "1.IH" have "concat (chunks n (drop n xs)) = drop n xs" by simp
    with False "1.prems" show ?thesis by (subst chunks.simps) simp
  qed
qed

lemma chunks_empty_iff: "chunks n xs = [] \<longleftrightarrow> n = 0 \<or> xs = []"
  by (subst chunks.simps) simp

lemma get_fid_outputs_Inr:
  assumes "get_fid_outputs encode dataset finetune mode0 = Inr r"
  shows "fr_mode r = (if \<not> finetune then ''eval'' else mode0)"
    and "fr_model_training r = (fr_mode r = ''train'')"
    and "requires_grad (fr_outputs r) = (fr_mode r = ''train'')"
    and "dataset \<noteq> []"
    and "hidden (fr_outputs r) =
           concat (map (encode (fr_mode r = ''train'')) (chunks 16 dataset))"
proof -
  let ?mode = "if \<not> finetune then ''eval'' else mode0"
  let ?outs = "map (\<lambda>b. \<lparr>hidden = encode (?mode = ''train'') b,
                          requires_grad = (?mode = ''train'')\<rparr>) (chunks 16 dataset)"
  from assms have ne: "?outs \<noteq> []"
    by (auto simp: get_fid_outputs_def Let_def split: if_splits)
  then have c: "chunks 16 dataset \<noteq> []" by simp
  then show "dataset \<noteq> []" by (simp add: chunks_empty_iff)
  from c have ex: "list_ex requires_grad ?outs = (?mode = ''train'')"
    by (cases "chunks 16 dataset") (auto simp: list_ex_iff)
  have hid: "concat (map hidden ?outs) = concat (map (encode (?mode = ''train'')) (chunks 16 dataset))"
    by (simp add: comp_def)
  from assms ne have r: "r = \<lparr>fr_outputs =
        (if ?mode = ''eval''
         then \<lparr>hidden = concat (map hidden ?outs), requires_grad = list_ex requires_grad ?outs\<rparr>
                \<lparr>requires_grad := False\<rparr>
         else \<lparr>hidden = concat (map hidden ?outs), requires_grad = list_ex requires_grad ?outs\<rparr>),
        fr_mode = ?mode, fr_model_training = (?mode = ''train'')\<rparr>"
    by (simp add: get_fid_outputs_def Let_def split: if_splits)
  from r show "fr_mode r = ?mode" by simp
  from r show "fr_model_training r = (fr_mode r = ''train'')" by simp
  from r ex show "requires_grad (fr_outputs r) = (fr_mode r = ''train'')" by auto
  from r hid show "hidden (fr_outputs r) =
           concat (map (encode (fr_mode r = ''train'')) (chunks 16 dataset))"
    by auto
qed

lemma get_fid_outputs_succeeds:
  "dataset \<noteq> [] \<Longrightarrow> \<exists>r. get_fid_outputs encode dataset finetune mode0 = Inr r"
  by (simp add: get_fid_outputs_def Let_def chunks_empty_iff)

text \<open>
  C9. The hidden vectors returned by \<^verbatim>\<open>get_fid_outputs\<close> are attached to the gradient graph
  exactly when the requested mode is \<^verbatim>\<open>'train'\<close> and \<^verbatim>\<open>finetune_encoder\<close> is set. When the
  requested mode is \<^verbatim>\<open>'eval'\<close>, or \<^verbatim>\<open>finetune_encoder\<close> is unset whatever the requested mode,
  the effective mode is \<^verbatim>\<open>'eval'\<close>, the encoder is put in evaluation mode and the returned
  vectors are detached. The call returns for every dataset that is not empty.
\<close>

theorem encoder_gradient_flow:
  "(\<forall>r. get_fid_outputs encode dataset finetune mode0 = Inr r \<longrightarrow>
       (requires_grad (fr_outputs r) \<longleftrightarrow> mode0 = ''train'' \<and> finetune)
     \<and> (mode0 = ''eval'' \<or> \<not> finetune \<longrightarrow>
          fr_mode r = ''eval'' \<and> \<not> requires_grad (fr_outputs r) \<and> \<not> fr_model_training r)
     \<and> (mode0 = ''train'' \<and> finetune \<longrightarrow> fr_mode r = ''train'' \<and> fr_model_training r))
   \<and> (dataset \<noteq> [] \<longrightarrow> (\<exists>r. get_fid_outputs encode dataset finetune mode0 = Inr r))"
proof (intro conjI allI impI)
  fix r
  assume g: "get_fid_outputs encode dataset finetune mode0 = Inr r"
  note facts = get_fid_outputs_Inr(1-3) [OF g]
  from facts show "requires_grad (fr_outputs r) \<longleftrightarrow> mode0 = ''train'' \<and> finetune"
    by (cases finetune) simp_all
  {
    assume "mode0 = ''eval'' \<or> \<not> finetune"
    with facts have e: "fr_mode r = ''eval''" by (cases finetune) auto
    with facts show "fr_mode r = ''eval''" and "\<not> requires_grad (fr_outputs r)"
      and "\<not> fr_model_training r"
      by simp_all
  }
  {
    assume "mode0 = ''train'' \<and> finetune"
    with facts show "fr_mode r = ''train''" and "fr_model_training r" by simp_all
  }
next
  assume "dataset \<noteq> []"
  then show "\<exists>r. get_fid_outputs encode dataset finetune mode0 = Inr r"
    by (rule get_fid_outputs_succeeds)
qed

theorem encoder_gradient_flow_witness:
  "one_day_dataset \<noteq> []
   \<and> (\<exists>r. get_fid_outputs const_encoder one_day_dataset True ''train'' = Inr r
         \<and> requires_grad (fr_outputs r) \<and> fr_mode r = ''train'')
   \<and> (\<exists>r. get_fid_outputs const_encoder one_day_dataset False ''train'' = Inr r
         \<and> \<not> requires_grad (fr_outputs r) \<and> fr_mode r = ''eval'')
   \<and> (\<exists>r. get_fid_outputs const_encoder one_day_dataset True ''eval'' = Inr r
         \<and> \<not> requires_grad (fr_outputs r) \<and> fr_mode r = ''eval'')"
proof -
  have ne: "one_day_dataset \<noteq> []" by (simp add: one_day_dataset_def)
  note a = encoder_gradient_flow [of const_encoder one_day_dataset True "''train''"]
  note b = encoder_gradient_flow [of const_encoder one_day_dataset False "''train''"]
  note c = encoder_gradient_flow [of const_encoder one_day_dataset True "''eval''"]
  from a ne obtain r1 where r1: "get_fid_outputs const_encoder one_day_dataset True ''train'' = Inr r1"
    by blast
  from b ne obtain r2 where r2: "get_fid_outputs const_encoder one_day_dataset False ''train'' = Inr r2"
    by blast
  from c ne obtain r3 where r3: "get_fid_outputs const_encoder one_day_dataset True ''eval'' = Inr r3"
    by blast
  from a [THEN conjunct1, rule_format, OF r1]
  have "requires_grad (fr_outputs r1) \<and> fr_mode r1 = ''train''" by simp
  moreover from b [THEN conjunct1, rule_format, OF r2]
  have "\<not> requires_grad (fr_outputs r2) \<and> fr_mode r2 = ''eval''" by simp
  moreover from c [THEN conjunct1, rule_format, OF r3]
  have "\<not> requires_grad (fr_outputs r3) \<and> fr_mode r3 = ''eval''" by simp
  ultimately show ?thesis using ne r1 r2 r3 by blast
qed

section \<open>The per-category losses\<close>

lemma select_cat_absent: "c \<notin> set cats \<Longrightarrow> select_cat c cats xs = []"
proof -
  assume "c \<notin> set cats"
  then have "filter (\<lambda>(k, x). k = c) (zip cats xs) = []"
    by (auto simp: filter_empty_conv dest: set_zip_leftD)
  then show ?thesis by (simp add: select_cat_def)
qed

text \<open>
  C6. A category with no example in the batch contributes the loss 0, and the training loss
  is the sum of the three per-category losses; the MultiChoice loss is the mean of its
  examples' losses divided by 1.74 and the Regression loss the mean of its examples' losses
  divided by 0.18, the BinaryTF loss is the plain mean. In particular a batch of one category
  has that category's loss as its training loss.
\<close>

theorem category_losses:
  "(0 \<notin> set (b_cats b) \<longrightarrow> loss_tf hs b = 0)
   \<and> (1 \<notin> set (b_cats b) \<longrightarrow> loss_mc hs b = 0)
   \<and> (2 \<notin> set (b_cats b) \<longrightarrow> loss_re hs b = 0)
   \<and> train_loss hs b = loss_tf hs b + loss_mc hs b + loss_re hs b
   \<and> (1 \<notin> set (b_cats b) \<longrightarrow> 2 \<notin> set (b_cats b) \<longrightarrow> train_loss hs b = loss_tf hs b)
   \<and> (0 \<notin> set (b_cats b) \<longrightarrow> 2 \<notin> set (b_cats b) \<longrightarrow> train_loss hs b = loss_mc hs b)
   \<and> (0 \<notin> set (b_cats b) \<longrightarrow> 1 \<notin> set (b_cats b) \<longrightarrow> train_loss hs b = loss_re hs b)
   \<and> (select_cat 0 (b_cats b) (t3_seqs (b_labels b)) \<noteq> [] \<longrightarrow>
        loss_tf hs b =
          mean (map (\<lambda>(lg, lb, m). tf_example_loss lg lb m)
                 (zip (select_cat 0 (b_cats b) (tf_all hs))
                    (zip (select_cat 0 (b_cats b) (t3_seqs (b_labels b)))
                         (select_cat 0 (b_cats b) (b_mask b))))))
   \<and> (select_cat 1 (b_cats b) (t3_seqs (b_labels b)) \<noteq> [] \<longrightarrow>
        loss_mc hs b * 1.74 =
          mean (map (\<lambda>(lg, lb, m). mc_example_loss lg lb m)
                 (zip (select_cat 1 (b_cats b) (mc_all hs))
                    (zip (select_cat 1 (b_cats b) (t3_seqs (b_labels b)))
                         (select_cat 1 (b_cats b) (b_mask b))))))
   \<and> (select_cat 2 (b_cats b) (t3_seqs (b_labels b)) \<noteq> [] \<longrightarrow>
        loss_re hs b * 0.18 =
          mean (map (\<lambda>(r, lb, m). re_example_loss r lb m)
                 (zip (select_cat 2 (b_cats b) (re_all hs))
                    (zip (select_cat 2 (b_cats b) (t3_seqs (b_labels b)))
                         (select_cat 2 (b_cats b) (b_mask b))))))"
proof -
  have tf0: "loss_tf hs b = 0" if "0 \<notin> set (b_cats b)"
    using that by (simp add: loss_tf_def select_cat_absent)
  have mc0: "loss_mc hs b = 0" if "1 \<notin> set (b_cats b)"
    using that by (simp add: loss_mc_def select_cat_absent)
  have re0: "loss_re hs b = 0" if "2 \<notin> set (b_cats b)"
    using that by (simp add: loss_re_def select_cat_absent)
  have total: "train_loss hs b = loss_tf hs b + loss_mc hs b + loss_re hs b"
    by (simp add: train_loss_def)
  have tf1: "loss_tf hs b =
          mean (map (\<lambda>(lg, lb, m). tf_example_loss lg lb m)
                 (zip (select_cat 0 (b_cats b) (tf_all hs))
                    (zip (select_cat 0 (b_cats b) (t3_seqs (b_labels b)))
                         (select_cat 0 (b_cats b) (b_mask b)))))"
    if "select_cat 0 (b_cats b) (t3_seqs (b_labels b)) \<noteq> []"
    using that by (simp add: loss_tf_def)
  have mc1: "loss_mc hs b * 1.74 =
          mean (map (\<lambda>(lg, lb, m). mc_example_loss lg lb m)
                 (zip (select_cat 1 (b_cats b) (mc_all hs))
                    (zip (select_cat 1 (b_cats b) (t3_seqs (b_labels b)))
                         (select_cat 1 (b_cats b) (b_mask b)))))"
    if "select_cat 1 (b_cats b) (t3_seqs (b_labels b)) \<noteq> []"
    using that by (simp add: loss_mc_def)
  have re1: "loss_re hs b * 0.18 =
          mean (map (\<lambda>(r, lb, m). re_example_loss r lb m)
                 (zip (select_cat 2 (b_cats b) (re_all hs))
                    (zip (select_cat 2 (b_cats b) (t3_seqs (b_labels b)))
                         (select_cat 2 (b_cats b) (b_mask b)))))"
    if "select_cat 2 (b_cats b) (t3_seqs (b_labels b)) \<noteq> []"
    using that by (simp add: loss_re_def)
  from tf0 mc0 re0 total tf1 mc1 re1 show ?thesis
    by (intro conjI impI) simp_all
qed

lemma collate_two_four_cats:
  "\<exists>b. forecaster_collate_fn [zeros2 2 8, zeros2 4 8] [zeros2 2 12, zeros2 4 12] tls cs = Inr b"
  by (simp add: forecaster_collate_fn_def pad_sequence2_def zeros2_def max_len_def Let_def)

theorem category_losses_witness:
  "\<exists>b. forecaster_collate_fn [zeros2 2 8, zeros2 4 8] [zeros2 2 12, zeros2 4 12] [1, 0] [0, 0]
          = Inr b
      \<and> b_cats b = [0, 0]
      \<and> loss_mc flat_heads b = 0 \<and> loss_re flat_heads b = 0
      \<and> train_loss flat_heads b = loss_tf flat_heads b"
proof -
  from collate_two_four_cats obtain b where
    c: "forecaster_collate_fn [zeros2 2 8, zeros2 4 8] [zeros2 2 12, zeros2 4 12] [1, 0] [0, 0]
          = Inr b"
    by blast
  have cats: "b_cats b = [0, 0]" by (rule collate_Inr(6) [OF c])
  then have a1: "1 \<notin> set (b_cats b)" and a2: "2 \<notin> set (b_cats b)" by simp_all
  note inst = category_losses [of b flat_heads]
  from inst a1 have "loss_mc flat_heads b = 0" by blast
  moreover from inst a2 have "loss_re flat_heads b = 0" by blast
  moreover from inst a1 a2 have "train_loss flat_heads b = loss_tf flat_heads b" by blast
  ultimately show ?thesis using c cats by blast
qed

section \<open>The multiple-choice row under rounding\<close>

lemma foldl_add_sum_list: "foldl (\<lambda>a x. a + x) a xs = a + sum_list (xs :: real list)"
  by (induction xs arbitrary: a) simp_all

lemma normalize_row_fl_exact: "normalize_row_fl (\<lambda>x. x) xs = normalize_row xs"
  by (simp add: normalize_row_fl_def normalize_row_def fl_sum_def foldl_add_sum_list)

lemma adjust_row_fl_exact: "adjust_row_fl (\<lambda>x. x) tt t = adjust_row tt t"
  by (simp add: adjust_row_fl_def adjust_row_def)

lemma day_target_fl_exact:
  "day_target_fl (\<lambda>x. x) sf adjust cat len tt v = day_target sf adjust cat len tt v"
  by (simp add: day_target_fl_def day_target_def normalize_row_fl_exact adjust_row_fl_exact
      split: sum.splits)

lemma fl_bounds:
  assumes "rounds_within u fl" and "0 \<le> x"
  shows "x * (1 - u) \<le> fl x" and "fl x \<le> x * (1 + u)"
proof -
  from assms have "\<bar>fl x - x\<bar> \<le> u * x"
    by (simp add: rounds_within_def) (metis abs_of_nonneg)
  then show "x * (1 - u) \<le> fl x" and "fl x \<le> x * (1 + u)"
    by (simp_all add: abs_le_iff algebra_simps)
qed

lemma fl_nonneg:
  assumes "rounds_within u fl" and "0 \<le> x"
  shows "0 \<le> fl x"
proof -
  from assms(1) have "0 \<le> 1 - u" by (simp add: rounds_within_def)
  with assms(2) have "0 \<le> x * (1 - u)" by (rule mult_nonneg_nonneg)
  with fl_bounds(1) [OF assms] show ?thesis by simp
qed

lemma foldl_fl_bounds:
  assumes R: "rounds_within u fl"
  shows "\<forall>x \<in> set xs. 0 \<le> x \<Longrightarrow> 0 \<le> A \<Longrightarrow> A * (1 - u) ^ k \<le> a \<Longrightarrow> a \<le> A * (1 + u) ^ k \<Longrightarrow>
     (A + sum_list xs) * (1 - u) ^ (k + length xs) \<le> foldl (\<lambda>a x. fl (a + x)) a xs
     \<and> foldl (\<lambda>a x. fl (a + x)) a xs \<le> (A + sum_list xs) * (1 + u) ^ (k + length xs)"
proof (induction xs arbitrary: A a k)
  case Nil
  then show ?case by simp
next
  case (Cons x xs)
  from R have u: "0 \<le> u" "u < 1" by (simp_all add: rounds_within_def)
  from Cons.prems(1) have x: "0 \<le> x" by simp
  from u have p1: "0 \<le> (1 - u) ^ k" "(1 - u) ^ k \<le> 1" by (simp_all add: power_le_one)
  from u have p2: "1 \<le> (1 + u) ^ k" by (simp add: one_le_power)
  from Cons.prems(2) p1(1) have "0 \<le> A * (1 - u) ^ k" by (rule mult_nonneg_nonneg)
  with Cons.prems(3) have a0: "0 \<le> a" by simp
  have lo1: "(A + x) * (1 - u) ^ k \<le> a + x"
  proof -
    from x p1 have "x * (1 - u) ^ k \<le> x * 1" by (intro mult_left_mono) simp_all
    with Cons.prems(3) show ?thesis by (simp add: algebra_simps)
  qed
  have hi1: "a + x \<le> (A + x) * (1 + u) ^ k"
  proof -
    from x p2 have "x * 1 \<le> x * (1 + u) ^ k" by (intro mult_left_mono) simp_all
    with Cons.prems(4) show ?thesis by (simp add: algebra_simps)
  qed
  from a0 x have ax: "0 \<le> a + x" by simp
  note f = fl_bounds [OF R ax]
  have lo: "(A + x) * (1 - u) ^ Suc k \<le> fl (a + x)"
  proof -
    have "(A + x) * (1 - u) ^ Suc k = (A + x) * (1 - u) ^ k * (1 - u)" by simp
    also from lo1 u have "\<dots> \<le> (a + x) * (1 - u)"
      by (intro mult_right_mono) simp_all
    also note f(1)
    finally show ?thesis .
  qed
  have hi: "fl (a + x) \<le> (A + x) * (1 + u) ^ Suc k"
  proof -
    note f(2)
    also from hi1 u have "(a + x) * (1 + u) \<le> (A + x) * (1 + u) ^ k * (1 + u)"
      by (intro mult_right_mono) simp_all
    also have "\<dots> = (A + x) * (1 + u) ^ Suc k" by simp
    finally show ?thesis .
  qed
  from Cons.prems(1) have rest: "\<forall>y \<in> set xs. 0 \<le> y" by simp
  from Cons.prems(2) x have A': "0 \<le> A + x" by simp
  from Cons.IH [OF rest A' lo hi] show ?case by (simp add: add.assoc)
qed

lemma fl_sum_bounds:
  assumes "rounds_within u fl" and "\<forall>x \<in> set xs. 0 \<le> x"
  shows "sum_list xs * (1 - u) ^ length xs \<le> fl_sum fl xs"
    and "fl_sum fl xs \<le> sum_list xs * (1 + u) ^ length xs"
  using foldl_fl_bounds [OF assms(1) assms(2), of 0 0 0]
  by (simp_all add: fl_sum_def)

lemma sum_list_map_fl_bounds:
  assumes R: "rounds_within u fl"
  shows "\<forall>y \<in> set ys. 0 \<le> y \<Longrightarrow>
     sum_list ys * (1 - u) \<le> sum_list (map fl ys) \<and> sum_list (map fl ys) \<le> sum_list ys * (1 + u)"
proof (induction ys)
  case Nil
  show ?case by simp
next
  case (Cons y ys)
  then have y: "0 \<le> y" and rest: "\<forall>z \<in> set ys. 0 \<le> z" by simp_all
  from fl_bounds [OF R y] Cons.IH [OF rest] show ?case
    by (simp add: algebra_simps)
qed

lemma normalize_row_fl_bounds:
  assumes R: "rounds_within u fl" and ne: "xs \<noteq> []" and pos: "\<forall>x \<in> set xs. 0 < x"
  shows "\<exists>row. normalize_row_fl fl xs = Inr row \<and> length row = length xs
           \<and> (\<forall>t \<in> set row. 0 \<le> t)
           \<and> sum_lower u (length xs) \<le> sum_list row
           \<and> sum_list row \<le> sum_upper u (length xs)"
proof -
  let ?n = "length xs"
  let ?S = "sum_list xs"
  let ?T = "fl_sum fl xs"
  from R have u: "0 \<le> u" "u < 1" by (simp_all add: rounds_within_def)
  from u have pl: "0 < (1 - u) ^ ?n" and pu: "0 < (1 + u) ^ ?n" by simp_all
  from sum_list_pos [OF ne pos] have S: "0 < ?S" .
  from pos have nonneg: "\<forall>x \<in> set xs. 0 \<le> x" by (simp add: less_imp_le)
  note b = fl_sum_bounds [OF R nonneg]
  from S pl have "0 < ?S * (1 - u) ^ ?n" by (rule mult_pos_pos)
  with b(1) have T: "0 < ?T" by simp
  let ?ys = "map (\<lambda>x. x / ?T) xs"
  let ?row = "map fl ?ys"
  from T nonneg have ys0: "\<forall>y \<in> set ?ys. 0 \<le> y" by (simp add: divide_nonneg_pos)
  have sum_ys: "sum_list ?ys = ?S / ?T" by (rule sum_list_divide)
  from sum_list_map_fl_bounds [OF R ys0] sum_ys
  have r: "?S / ?T * (1 - u) \<le> sum_list ?row" "sum_list ?row \<le> ?S / ?T * (1 + u)"
    by simp_all
  have q1: "1 / (1 + u) ^ ?n \<le> ?S / ?T"
  proof -
    from b(2) T pu have "1 * ?T \<le> ?S * (1 + u) ^ ?n" by simp
    with T pu show ?thesis by (simp add: field_simps)
  qed
  have q2: "?S / ?T \<le> 1 / (1 - u) ^ ?n"
  proof -
    from b(1) T pl have "?S * (1 - u) ^ ?n \<le> 1 * ?T" by simp
    with T pl show ?thesis by (simp add: field_simps)
  qed
  have lo: "sum_lower u ?n \<le> sum_list ?row"
  proof -
    from q1 u have "1 / (1 + u) ^ ?n * (1 - u) \<le> ?S / ?T * (1 - u)"
      by (intro mult_right_mono) simp_all
    with r(1) show ?thesis by (simp add: sum_lower_def)
  qed
  have hi: "sum_list ?row \<le> sum_upper u ?n"
  proof -
    from q2 u have "?S / ?T * (1 + u) \<le> 1 / (1 - u) ^ ?n * (1 + u)"
      by (intro mult_right_mono) simp_all
    with r(2) show ?thesis by (simp add: sum_upper_def)
  qed
  have row0: "\<forall>t \<in> set ?row. 0 \<le> t"
    using ys0 fl_nonneg [OF R] by auto
  from T have "normalize_row_fl fl xs = Inr ?row"
    by (simp add: normalize_row_fl_def Let_def comp_def)
  with lo hi row0 show ?thesis by simp
qed

lemma adjust_row_fl_entry:
  assumes R: "rounds_within u fl" and i: "i < length t" and t0: "\<forall>x \<in> set t. 0 \<le> x"
  shows "adjust_row tt t ! i * (1 - u)\<^sup>2 \<le> adjust_row_fl fl tt t ! i"
    and "adjust_row_fl fl tt t ! i \<le> adjust_row tt t ! i * (1 + u)\<^sup>2"
    and "0 \<le> adjust_row_fl fl tt t ! i"
proof -
  from R have u: "0 \<le> u" "u < 1" by (simp_all add: rounds_within_def)
  from i t0 have ti: "0 \<le> t ! i" by simp
  have sq1: "(1 - u)\<^sup>2 \<le> 1 - u"
  proof -
    from u have "(1 - u) * (1 - u) \<le> (1 - u) * 1" by (intro mult_left_mono) simp_all
    then show ?thesis by (simp add: power2_eq_square)
  qed
  have sq2: "1 + u \<le> (1 + u)\<^sup>2"
  proof -
    from u have "(1 + u) * 1 \<le> (1 + u) * (1 + u)" by (intro mult_left_mono) simp_all
    then show ?thesis by (simp add: power2_eq_square)
  qed
  have "adjust_row tt t ! i * (1 - u)\<^sup>2 \<le> adjust_row_fl fl tt t ! i
      \<and> adjust_row_fl fl tt t ! i \<le> adjust_row tt t ! i * (1 + u)\<^sup>2
      \<and> 0 \<le> adjust_row_fl fl tt t ! i"
  proof (cases "real i = tt")
    case True
    let ?a = "fl (t ! i + 1)"
    from ti have s0: "0 \<le> t ! i + 1" by simp
    note a = fl_bounds [OF R s0]
    from fl_nonneg [OF R s0] have a0: "0 \<le> ?a / 2" by simp
    note f = fl_bounds [OF R a0]
    have lo: "(t ! i + 1) / 2 * (1 - u)\<^sup>2 \<le> fl (?a / 2)"
    proof -
      have "(t ! i + 1) / 2 * (1 - u)\<^sup>2 = (t ! i + 1) * (1 - u) / 2 * (1 - u)"
        by (simp add: power2_eq_square)
      also from a(1) u have "\<dots> \<le> ?a / 2 * (1 - u)"
        by (intro mult_right_mono divide_right_mono) simp_all
      also note f(1)
      finally show ?thesis .
    qed
    have hi: "fl (?a / 2) \<le> (t ! i + 1) / 2 * (1 + u)\<^sup>2"
    proof -
      note f(2)
      also from a(2) u have "?a / 2 * (1 + u) \<le> (t ! i + 1) * (1 + u) / 2 * (1 + u)"
        by (intro mult_right_mono divide_right_mono) simp_all
      also have "\<dots> = (t ! i + 1) / 2 * (1 + u)\<^sup>2" by (simp add: power2_eq_square)
      finally show ?thesis .
    qed
    from True i lo hi fl_nonneg [OF R a0] show ?thesis
      by (simp add: adjust_row_def adjust_row_fl_def)
  next
    case False
    from ti have h0: "0 \<le> t ! i / 2" by simp
    note f = fl_bounds [OF R h0]
    have lo: "t ! i / 2 * (1 - u)\<^sup>2 \<le> fl (t ! i / 2)"
    proof -
      from sq1 h0 have "t ! i / 2 * (1 - u)\<^sup>2 \<le> t ! i / 2 * (1 - u)"
        by (rule mult_left_mono)
      also note f(1)
      finally show ?thesis .
    qed
    have hi: "fl (t ! i / 2) \<le> t ! i / 2 * (1 + u)\<^sup>2"
    proof -
      note f(2)
      also from sq2 h0 have "t ! i / 2 * (1 + u) \<le> t ! i / 2 * (1 + u)\<^sup>2"
        by (rule mult_left_mono)
      finally show ?thesis .
    qed
    from False i lo hi fl_nonneg [OF R h0] show ?thesis
      by (simp add: adjust_row_def adjust_row_fl_def)
  qed
  then show "adjust_row tt t ! i * (1 - u)\<^sup>2 \<le> adjust_row_fl fl tt t ! i"
    and "adjust_row_fl fl tt t ! i \<le> adjust_row tt t ! i * (1 + u)\<^sup>2"
    and "0 \<le> adjust_row_fl fl tt t ! i"
    by simp_all
qed

lemma adjust_row_fl_length: "length (adjust_row_fl fl tt t) = length t"
  by (simp add: adjust_row_fl_def)

lemma sum_list_scaled: "sum_list (map (\<lambda>x. x * c) xs) = sum_list xs * (c::real)"
  by (induction xs) (simp_all add: algebra_simps)

lemma adjust_row_fl_bounds:
  assumes R: "rounds_within u fl" and k: "k < length t" and t0: "\<forall>x \<in> set t. 0 \<le> x"
  shows "(sum_list t + 1) / 2 * (1 - u)\<^sup>2 \<le> sum_list (adjust_row_fl fl (real k) t)"
    and "sum_list (adjust_row_fl fl (real k) t) \<le> (sum_list t + 1) / 2 * (1 + u)\<^sup>2"
    and "\<forall>y \<in> set (adjust_row_fl fl (real k) t). 0 \<le> y"
proof -
  let ?e = "adjust_row (real k) t"
  let ?f = "adjust_row_fl fl (real k) t"
  have len: "length ?e = length ?f" by (simp add: adjust_row_length adjust_row_fl_length)
  have "sum_list (map (\<lambda>x. x * (1 - u)\<^sup>2) ?e) \<le> sum_list ?f"
  proof (rule sum_list_mono2)
    show "length (map (\<lambda>x. x * (1 - u)\<^sup>2) ?e) = length ?f" using len by simp
    fix i
    show "i < length (map (\<lambda>x. x * (1 - u)\<^sup>2) ?e) \<longrightarrow>
          map (\<lambda>x. x * (1 - u)\<^sup>2) ?e ! i \<le> ?f ! i"
      using adjust_row_fl_entry(1) [OF R _ t0, of i "real k"]
      by (simp add: adjust_row_length)
  qed
  then show "(sum_list t + 1) / 2 * (1 - u)\<^sup>2 \<le> sum_list ?f"
    by (simp add: sum_list_scaled sum_list_adjust_row_inside [OF k])
  have "sum_list ?f \<le> sum_list (map (\<lambda>x. x * (1 + u)\<^sup>2) ?e)"
  proof (rule sum_list_mono2)
    show "length ?f = length (map (\<lambda>x. x * (1 + u)\<^sup>2) ?e)" using len by simp
    fix i
    show "i < length ?f \<longrightarrow> ?f ! i \<le> map (\<lambda>x. x * (1 + u)\<^sup>2) ?e ! i"
      using adjust_row_fl_entry(2) [OF R _ t0, of i "real k"]
      by (simp add: adjust_row_length adjust_row_fl_length)
  qed
  then show "sum_list ?f \<le> (sum_list t + 1) / 2 * (1 + u)\<^sup>2"
    by (simp add: sum_list_scaled sum_list_adjust_row_inside [OF k])
  show "\<forall>y \<in> set ?f. 0 \<le> y"
    using adjust_row_fl_entry(3) [OF R _ t0, of _ "real k"]
    by (auto simp: in_set_conv_nth adjust_row_fl_length)
qed

lemma sum_bounds_exact: "sum_lower 0 n = 1" "sum_upper 0 n = 1"
  by (simp_all add: sum_lower_def sum_upper_def)

lemma sum_bounds_order:
  assumes "0 \<le> u" and "u < 1"
  shows "0 \<le> sum_lower u n" and "sum_lower u n \<le> 1" and "1 \<le> sum_upper u n"
proof -
  from assms have a: "1 \<le> (1 + u) ^ n" by (simp add: one_le_power)
  from assms have b: "0 < (1 - u) ^ n" "(1 - u) ^ n \<le> 1" by (simp_all add: power_le_one)
  from assms a show "0 \<le> sum_lower u n" by (simp add: sum_lower_def)
  from assms a have "1 - u \<le> (1 + u) ^ n" by linarith
  with a show "sum_lower u n \<le> 1" by (simp add: sum_lower_def field_simps)
  from assms b have "(1 - u) ^ n \<le> 1 + u" by linarith
  with b show "1 \<le> sum_upper u n" by (simp add: sum_upper_def field_simps)
qed

text \<open>
  C10, as amended. A multiple-choice day with at least one score among the first \<open>len\<close>, all of
  them positive, yields a row that sums to 1 up to floating-point rounding, with
  \<^verbatim>\<open>adjust_targets\<close> set provided the true choice is a position of the row. With unit
  roundoff \<open>u\<close> and \<open>n\<close> scores, and no overflow or underflow, the sum of the entries lies
  between \<open>(1 - u) / (1 + u) ^ n\<close> and \<open>(1 + u) / (1 - u) ^ n\<close> when \<^verbatim>\<open>adjust_targets\<close> is unset;
  when it is set the halving blend maps these bounds \<open>b\<close> to \<open>(b + 1) / 2 * (1 - u)\<^sup>2\<close> and
  \<open>(b + 1) / 2 * (1 + u)\<^sup>2\<close>. Summing the entries in floating point changes the sum by a
  factor between \<open>(1 - u) ^ n\<close> and \<open>(1 + u) ^ n\<close>; the entries are not negative, so storing
  them in a narrower format changes it by one more such factor (\<open>sum_list_map_fl_bounds\<close>).
  The sum is exactly 1 only in exact arithmetic (\<open>u = 0\<close>).
\<close>

theorem choice_row_sums_to_one:
  assumes R: "rounds_within u fl"
    and xs: "map_err (py_float sf) (take len scores) = Inr xs"
    and ne: "xs \<noteq> []"
    and pos: "\<forall>x \<in> set xs. 0 < x"
    and inside: "adjust \<longrightarrow> (\<exists>k < length xs. tt = real k)"
  shows "\<exists>row. day_target_fl fl sf adjust MultiChoice len tt (PList scores) = Inr row
      \<and> length row = length xs
      \<and> (if adjust
          then (sum_lower u (length xs) + 1) / 2 * (1 - u)\<^sup>2 \<le> sum_list row
             \<and> sum_list row \<le> (sum_upper u (length xs) + 1) / 2 * (1 + u)\<^sup>2
          else sum_lower u (length xs) \<le> sum_list row
             \<and> sum_list row \<le> sum_upper u (length xs))
      \<and> sum_list row * (1 - u) ^ length xs \<le> fl_sum fl row
      \<and> fl_sum fl row \<le> sum_list row * (1 + u) ^ length xs
      \<and> (\<forall>y \<in> set row. 0 \<le> y)
      \<and> (u = 0 \<longrightarrow> sum_list row = 1 \<and> fl_sum fl row = 1)"
proof -
  let ?n = "length xs"
  from R have u: "0 \<le> u" "u < 1" by (simp_all add: rounds_within_def)
  from normalize_row_fl_bounds [OF R ne pos] obtain t where
    t: "normalize_row_fl fl xs = Inr t" and lt: "length t = ?n"
    and t0: "\<forall>x \<in> set t. 0 \<le> x"
    and tlo: "sum_lower u ?n \<le> sum_list t" and thi: "sum_list t \<le> sum_upper u ?n"
    by blast
  let ?row = "if adjust then adjust_row_fl fl tt t else t"
  have dt: "day_target_fl fl sf adjust MultiChoice len tt (PList scores) = Inr ?row"
    by (simp add: day_target_fl_def slice_prefix_def xs t)
  have len: "length ?row = ?n" by (simp add: lt adjust_row_fl_length)
  have core: "(if adjust
          then (sum_lower u ?n + 1) / 2 * (1 - u)\<^sup>2 \<le> sum_list ?row
             \<and> sum_list ?row \<le> (sum_upper u ?n + 1) / 2 * (1 + u)\<^sup>2
          else sum_lower u ?n \<le> sum_list ?row \<and> sum_list ?row \<le> sum_upper u ?n)
        \<and> (\<forall>y \<in> set ?row. 0 \<le> y)"
  proof (cases adjust)
    case False
    with tlo thi t0 show ?thesis by simp
  next
    case True
    with inside lt obtain k where k: "k < length t" and tt: "tt = real k" by auto
    note b = adjust_row_fl_bounds [OF R k t0]
    have lo: "(sum_lower u ?n + 1) / 2 * (1 - u)\<^sup>2 \<le> sum_list (adjust_row_fl fl (real k) t)"
    proof -
      from tlo have "(sum_lower u ?n + 1) / 2 * (1 - u)\<^sup>2 \<le> (sum_list t + 1) / 2 * (1 - u)\<^sup>2"
        by (intro mult_right_mono divide_right_mono) simp_all
      also note b(1)
      finally show ?thesis .
    qed
    have hi: "sum_list (adjust_row_fl fl (real k) t) \<le> (sum_upper u ?n + 1) / 2 * (1 + u)\<^sup>2"
    proof -
      note b(2)
      also from thi have "(sum_list t + 1) / 2 * (1 + u)\<^sup>2 \<le> (sum_upper u ?n + 1) / 2 * (1 + u)\<^sup>2"
        by (intro mult_right_mono divide_right_mono) simp_all
      finally show ?thesis .
    qed
    from True tt lo hi b(3) show ?thesis by simp
  qed
  then have row0: "\<forall>y \<in> set ?row. 0 \<le> y" by (rule conjunct2)
  from fl_sum_bounds [OF R row0] len
  have fs: "sum_list ?row * (1 - u) ^ ?n \<le> fl_sum fl ?row"
    "fl_sum fl ?row \<le> sum_list ?row * (1 + u) ^ ?n"
    by simp_all
  have exact: "u = 0 \<longrightarrow> sum_list ?row = 1 \<and> fl_sum fl ?row = 1"
  proof
    assume z: "u = 0"
    from core have "sum_list ?row = 1"
      by (cases adjust) (simp_all add: z sum_bounds_exact)
    with fs z show "sum_list ?row = 1 \<and> fl_sum fl ?row = 1" by simp
  qed
  from dt len core fs exact row0 show ?thesis by blast
qed

lemma up_rounding_within: "rounds_within (1 / 1000) up_rounding"
proof -
  have "\<bar>up_rounding x - x\<bar> \<le> 1 / 1000 * \<bar>x\<bar>" for x
  proof -
    have "up_rounding x - x = x * (1 / 1000)" by (simp add: up_rounding_def)
    then have "\<bar>up_rounding x - x\<bar> = \<bar>x * (1 / 1000)\<bar>" by (rule arg_cong)
    also have "\<dots> = 1 / 1000 * \<bar>x\<bar>" by (simp add: abs_mult)
    finally show ?thesis by simp
  qed
  then show ?thesis by (simp add: rounds_within_def)
qed

theorem choice_row_sums_to_one_witness:
  "rounds_within (1 / 1000) up_rounding
   \<and> map_err (py_float sample_float) (take 3 [PNum 1, PNum 2, PNum 1]) = Inr [1, 2, 1]
   \<and> list_all (\<lambda>x. 0 < x) [1, 2, 1 :: real]
   \<and> (\<exists>k < length [1, 2, 1 :: real]. (1::real) = real k)
   \<and> (\<exists>row. day_target_fl up_rounding sample_float True MultiChoice 3 1
               (PList [PNum 1, PNum 2, PNum 1]) = Inr row
          \<and> length row = 3
          \<and> (sum_lower (1 / 1000) 3 + 1) / 2 * (1 - 1 / 1000)\<^sup>2 \<le> sum_list row
          \<and> sum_list row \<le> (sum_upper (1 / 1000) 3 + 1) / 2 * (1 + 1 / 1000)\<^sup>2)"
proof -
  have x: "map_err (py_float sample_float) (take 3 [PNum 1, PNum 2, PNum 1]) = Inr [1, 2, 1]"
    by (simp add: py_float_def)
  have ne: "[1, 2, 1 :: real] \<noteq> []" by simp
  have pos: "\<forall>x \<in> set [1, 2, 1 :: real]. 0 < x" by simp
  have k: "\<exists>k < length [1, 2, 1 :: real]. (1::real) = real k"
    by (rule exI [of _ 1]) simp
  then have inside: "True \<longrightarrow> (\<exists>k < length [1, 2, 1 :: real]. (1::real) = real k)" by simp
  from choice_row_sums_to_one [OF up_rounding_within x ne pos inside]
  obtain row where
    "day_target_fl up_rounding sample_float True MultiChoice 3 1
        (PList [PNum 1, PNum 2, PNum 1]) = Inr row"
    and "length row = length [1, 2, 1 :: real]"
    and "(sum_lower (1 / 1000) (length [1, 2, 1 :: real]) + 1) / 2 * (1 - 1 / 1000)\<^sup>2 \<le> sum_list row"
    and "sum_list row \<le> (sum_upper (1 / 1000) (length [1, 2, 1 :: real]) + 1) / 2 * (1 + 1 / 1000)\<^sup>2"
    by auto
  then have "\<exists>row. day_target_fl up_rounding sample_float True MultiChoice 3 1
               (PList [PNum 1, PNum 2, PNum 1]) = Inr row
          \<and> length row = 3
          \<and> (sum_lower (1 / 1000) 3 + 1) / 2 * (1 - 1 / 1000)\<^sup>2 \<le> sum_list row
          \<and> sum_list row \<le> (sum_upper (1 / 1000) 3 + 1) / 2 * (1 + 1 / 1000)\<^sup>2"
    by (intro exI [of _ row]) (simp add: numeral_3_eq_3)
  with up_rounding_within x k show ?thesis by simp
qed

end
